theory Spec2Isabelle
  imports
    Main
    "HOL-Library.Sublist"
    "HOL-Library.Char_ord"
    "HOL-Library.List_Lexorder"
begin

section \<open>The upload job of chrome/browser/chromeos/policy/upload\_job\_impl.cc\<close>

text \<open>
  The theory embeds \<^verbatim>\<open>UploadJobImpl\<close>: the multipart assembly of
  \<^verbatim>\<open>SetUpMultipart\<close> and the retry state machine around it. A
  \<^verbatim>\<open>std::string\<close> is a \<^typ>\<open>string\<close> (a list of bytes), compared as
  \<^verbatim>\<open>std::string::operator<\<close> compares: lexicographically on unsigned bytes.
  The member functions become functions from the job to the job; what the job does to its
  collaborators (token service, URL fetcher, task runner, delegate, boundary generator) is
  recorded in the job record, call by call, in the order of the calls.

  The embedding follows a build without debug checks: a \<^verbatim>\<open>DCHECK\<close> is a
  comment there, and the explicit tests that follow it in the source are the behaviour.
  Log lines (\<^verbatim>\<open>CHROMEOS_SYSLOG\<close>) and the \<^verbatim>\<open>reserve\<close> of the buffer
  do not change any value a member function reads, and are left out.
\<close>

subsection \<open>Strings\<close>

abbreviation CRLF :: string where
  "CRLF \<equiv> [CHR 0x0D, CHR 0x0A]"

abbreviation DQUOTE :: string where
  "DQUOTE \<equiv> [CHR 0x22]"

text \<open>\<^verbatim>\<open>std::string::c_str()\<close> read by \<^verbatim>\<open>%s\<close>: the bytes before the first NUL.\<close>

definition c_str :: "string \<Rightarrow> string" where
  "c_str s = takeWhile (\<lambda>c. c \<noteq> CHR 0x00) s"

subsection \<open>std::map<std::string, std::string>\<close>

text \<open>
  An ordered map is the list of its entries in iteration order: strictly ascending keys.
  \<open>ins_entry\<close> is insertion with replacement; \<open>map_find\<close> is lookup.
\<close>

typedef std_map = "{es :: (string \<times> string) list. sorted_wrt (<) (map fst es)}"
  morphisms entries_of Abs_std_map
proof
  show "[] \<in> {es :: (string \<times> string) list. sorted_wrt (<) (map fst es)}"
    by simp
qed

setup_lifting type_definition_std_map

fun ins_entry :: "string \<Rightarrow> string \<Rightarrow> (string \<times> string) list \<Rightarrow> (string \<times> string) list" where
  "ins_entry k v [] = [(k, v)]"
| "ins_entry k v ((k', v') # es) =
     (if k < k' then (k, v) # (k', v') # es
      else if k = k' then (k, v) # es
      else (k', v') # ins_entry k v es)"

lemma set_ins_entry: "set (map fst (ins_entry k v es)) = insert k (set (map fst es))"
proof (induction es)
  case Nil
  show ?case by simp
next
  case (Cons e es)
  show ?case
  proof (cases e)
    case (Pair k' v')
    with Cons show ?thesis by (simp add: insert_commute)
  qed
qed

lemma sorted_ins_entry:
  "sorted_wrt (<) (map fst es) \<Longrightarrow> sorted_wrt (<) (map fst (ins_entry k v es))"
proof (induction es)
  case Nil
  then show ?case by simp
next
  case (Cons e es)
  obtain k' v' where e: "e = (k', v')" by (cases e)
  have "\<forall>x \<in> set (map fst (ins_entry k v es)). k' < x" if "k' < k"
    unfolding set_ins_entry using Cons.prems that by (auto simp: e)
  then show ?case using Cons by (auto simp: e)
qed

lift_definition map_empty :: std_map is "[]"
  by simp

lift_definition map_insert :: "string \<Rightarrow> string \<Rightarrow> std_map \<Rightarrow> std_map" is ins_entry
  by (rule sorted_ins_entry)

lift_definition map_find :: "std_map \<Rightarrow> string \<Rightarrow> string option" is map_of .

subsection \<open>DataSegment\<close>

text \<open>
  One part of the multipart message; each field is named after the getter that reads it
  (Isabelle has no names that end in an underscore). The data is an owned buffer that the
  constructor requires to be non-null; \<^verbatim>\<open>GetData\<close> moves it out once, inside
  the assembly loop, and the segment list is cleared right after that loop, so the
  moved-from segment is never read again. The field is the buffer itself.
\<close>

record DataSegment =
  GetName :: string
  GetFilename :: string
  GetData :: string
  GetHeaderEntries :: std_map

subsection \<open>The job and its collaborators\<close>

text \<open>
  The two enumerations are declared in the class header, which is not among the sources;
  their values are the names that \<^verbatim>\<open>upload_job_impl.cc\<close> uses.
\<close>

datatype State = IDLE | ACQUIRING_TOKEN | PREPARING_CONTENT | UPLOADING | SUCCESS | ERROR

datatype ErrorCode = NETWORK_ERROR | AUTHENTICATION_ERROR | SERVER_ERROR

record GURL =
  spec :: string
  is_valid :: bool

text \<open>A started \<^verbatim>\<open>net::URLFetcher\<close>: a POST of \<open>upload_content\<close>.\<close>

record URLFetcher =
  fetch_url :: GURL
  upload_content_type :: string
  upload_content :: string
  extra_request_header :: string

text \<open>Calls on the token service, on the delegate, and tasks given to the task runner.\<close>

datatype token_service_call =
  StartRequest string
| InvalidateAccessToken string string

datatype delegate_call = OnSuccess | OnFailure ErrorCode

datatype delayed_task = RequestAccessToken_task | StartUpload_task

text \<open>
  The members of \<^verbatim>\<open>UploadJobImpl\<close> (named as in the source, without the
  trailing underscore), then the history of its collaborators.
  \<open>boundary_generator\<close> gives the result of the k-th call of
  \<^verbatim>\<open>GenerateBoundary\<close>, and \<open>boundary_calls\<close> counts the calls made.
  \<open>access_token_request\<close> tells whether the request handle is non-null.
  \<open>task_runner\<close> holds the posted tasks that have not run yet, each with its delay;
  \<open>started_fetchers\<close> lists every fetcher on which \<^verbatim>\<open>Start\<close> was called.
  \<open>g_retry_delay_ms\<close> is the global of that name. \<open>retry\<close> holds the value of a
  32-bit \<^verbatim>\<open>int\<close>; its one arithmetic operation, the increment in
  \<open>HandleError\<close>, wraps around.
\<close>

record job =
  upload_url :: GURL
  account_id :: string
  boundary_generator :: "nat \<Rightarrow> string"
  state :: State
  retry :: int
  access_token :: string
  access_token_request :: bool
  mime_boundary :: "string option"
  post_data :: "string option"
  data_segments :: "DataSegment list"
  upload_fetcher :: "URLFetcher option"
  boundary_calls :: nat
  token_service_calls :: "token_service_call list"
  delegate_calls :: "delegate_call list"
  task_runner :: "(delayed_task \<times> int) list"
  started_fetchers :: "URLFetcher list"
  g_retry_delay_ms :: int

definition kMaxAttempts :: int where
  "kMaxAttempts = 4"

definition kUploadContentType :: string where
  "kUploadContentType = ''multipart/form-data''"

definition UploadJobImpl :: "GURL \<Rightarrow> string \<Rightarrow> (nat \<Rightarrow> string) \<Rightarrow> int \<Rightarrow> job" where
  "UploadJobImpl url account generator retry_delay_ms =
     \<lparr> upload_url = url,
       account_id = account,
       boundary_generator = generator,
       state = (if is_valid url then IDLE else ERROR),
       retry = 0,
       access_token = [],
       access_token_request = False,
       mime_boundary = None,
       post_data = None,
       data_segments = [],
       upload_fetcher = None,
       boundary_calls = 0,
       token_service_calls = [],
       delegate_calls = [],
       task_runner = [],
       started_fetchers = [],
       g_retry_delay_ms = retry_delay_ms \<rparr>"

definition AddDataSegment ::
  "string \<Rightarrow> string \<Rightarrow> std_map \<Rightarrow> string \<Rightarrow> job \<Rightarrow> job" where
  "AddDataSegment name filename header_entries data j =
     (if state j \<noteq> IDLE then j
      else j\<lparr>data_segments := data_segments j @
             [\<lparr>GetName = name, GetFilename = filename, GetData = data,
               GetHeaderEntries = header_entries\<rparr>]\<rparr>)"

definition RequestAccessToken :: "job \<Rightarrow> job" where
  "RequestAccessToken j =
     j\<lparr>state := ACQUIRING_TOKEN,
       access_token_request := True,
       token_service_calls := token_service_calls j @ [StartRequest (account_id j)]\<rparr>"

definition Start :: "job \<Rightarrow> job" where
  "Start j = (if state j \<noteq> IDLE then j else RequestAccessToken j)"

text \<open>The static setter of the global delay; its \<^verbatim>\<open>CHECK_GE\<close> aborts on a negative delay.\<close>

definition SetRetryDelayForTesting :: "int \<Rightarrow> job \<Rightarrow> job option" where
  "SetRetryDelayForTesting retry_delay_ms j =
     (if retry_delay_ms \<ge> 0 then Some (j\<lparr>g_retry_delay_ms := retry_delay_ms\<rparr>) else None)"

subsection \<open>SetUpMultipart\<close>

text \<open>The first loop: \<^verbatim>\<open>used_names.insert(name).second\<close> is false on a name seen before.\<close>

fun names_unique :: "DataSegment list \<Rightarrow> string set \<Rightarrow> bool" where
  "names_unique [] used_names = True"
| "names_unique (s # ss) used_names =
     (if GetName s \<in> used_names then False
      else names_unique ss (insert (GetName s) used_names))"

text \<open>The body of the third loop: the appends for one segment, in the order of the source.\<close>

definition append_segment :: "string \<Rightarrow> string \<Rightarrow> DataSegment \<Rightarrow> string" where
  "append_segment boundary post s =
     (let p1 = post @ (''--'' @ boundary @ CRLF);
          p2 = p1 @ (''Content-Disposition: form-data; name='' @ DQUOTE @ GetName s @ DQUOTE);
          p3 = (if GetFilename s \<noteq> []
                then p2 @ (''; filename='' @ DQUOTE @ GetFilename s @ DQUOTE)
                else p2);
          p4 = p3 @ CRLF;
          p5 = fold (\<lambda>entry p. p @ (fst entry @ '': '' @ snd entry @ CRLF))
                 (entries_of (GetHeaderEntries s)) p4
      in p5 @ (CRLF @ GetData s @ CRLF))"

definition assemble :: "string \<Rightarrow> DataSegment list \<Rightarrow> string" where
  "assemble boundary segments =
     fold (\<lambda>s post. append_segment boundary post s) segments [] @ (''--'' @ boundary @ ''--'' @ CRLF)"

definition SetUpMultipart :: "job \<Rightarrow> bool \<times> job" where
  "SetUpMultipart j0 =
     (let j = j0\<lparr>state := PREPARING_CONTENT\<rparr> in
      if mime_boundary j \<noteq> None \<and> post_data j \<noteq> None then (True, j)
      else if \<not> names_unique (data_segments j) {} then (False, j)
      else
        let boundary = boundary_generator j (boundary_calls j) in
        (True,
         j\<lparr>mime_boundary := Some boundary,
           boundary_calls := Suc (boundary_calls j),
           post_data := Some (assemble boundary (data_segments j)),
           data_segments := []\<rparr>))"

subsection \<open>Upload, token callbacks, error handling\<close>

text \<open>
  \<^verbatim>\<open>CreateAndStartURLFetcher\<close> dereferences \<^verbatim>\<open>mime_boundary\<close> and
  \<^verbatim>\<open>post_data\<close>; its only caller runs it after \<open>SetUpMultipart\<close> returned
  true, where both are set.
\<close>

definition CreateAndStartURLFetcher :: "string \<Rightarrow> job \<Rightarrow> job" where
  "CreateAndStartURLFetcher token j =
     (let fetcher =
            \<lparr> fetch_url = upload_url j,
              upload_content_type = kUploadContentType @ ''; boundary='' @ the (mime_boundary j),
              upload_content = the (post_data j),
              extra_request_header = ''Authorization: Bearer '' @ c_str token \<rparr>
      in j\<lparr>upload_fetcher := Some fetcher,
           started_fetchers := started_fetchers j @ [fetcher]\<rparr>)"

definition StartUpload :: "job \<Rightarrow> job" where
  "StartUpload j =
     (case SetUpMultipart j of
        (False, j') \<Rightarrow> j'\<lparr>state := ERROR\<rparr>
      | (True, j') \<Rightarrow> (CreateAndStartURLFetcher (access_token j') j')\<lparr>state := UPLOADING\<rparr>)"

text \<open>
  \<^verbatim>\<open>retry_++\<close> on the 32-bit \<^verbatim>\<open>int\<close> member: one more, and from the largest
  value around to the smallest, as two's complement arithmetic computes it.
\<close>

definition int32_increment :: "int \<Rightarrow> int" where
  "int32_increment r = (if r = 2147483647 then - 2147483648 else r + 1)"

definition HandleError :: "ErrorCode \<Rightarrow> job \<Rightarrow> job" where
  "HandleError error_code j0 =
     (let j = j0\<lparr>retry := int32_increment (retry j0), upload_fetcher := None\<rparr> in
      if retry j \<ge> kMaxAttempts then
        j\<lparr>access_token := [],
          post_data := None,
          state := ERROR,
          delegate_calls := delegate_calls j @ [OnFailure error_code]\<rparr>
      else if error_code = AUTHENTICATION_ERROR then
        j\<lparr>token_service_calls := token_service_calls j @
             [InvalidateAccessToken (account_id j) (access_token j)],
          access_token := [],
          task_runner := task_runner j @ [(RequestAccessToken_task, g_retry_delay_ms j)]\<rparr>
      else
        j\<lparr>state := ACQUIRING_TOKEN,
          task_runner := task_runner j @ [(StartUpload_task, g_retry_delay_ms j)]\<rparr>)"

definition OnGetTokenSuccess :: "string \<Rightarrow> job \<Rightarrow> job" where
  "OnGetTokenSuccess token j =
     StartUpload (j\<lparr>access_token_request := False, access_token := token\<rparr>)"

definition OnGetTokenFailure :: "job \<Rightarrow> job" where
  "OnGetTokenFailure j = HandleError AUTHENTICATION_ERROR (j\<lparr>access_token_request := False\<rparr>)"

text \<open>
  Modelled from the spec: the two status codes of \<^verbatim>\<open>net/http/http_status_code.h\<close>,
  a header that is not among the sources; the specification gives them as HTTP 200 and
  HTTP 401.
\<close>

definition HTTP_OK :: int where
  "HTTP_OK = 200"

definition HTTP_UNAUTHORIZED :: int where
  "HTTP_UNAUTHORIZED = 401"

text \<open>
  \<^verbatim>\<open>OnURLFetchComplete\<close> reads two values of the fetcher: whether the request status
  is a success, and the response code.
\<close>

definition OnURLFetchComplete :: "bool \<Rightarrow> int \<Rightarrow> job \<Rightarrow> job" where
  "OnURLFetchComplete status_is_success response_code j =
     (if \<not> status_is_success then HandleError NETWORK_ERROR j
      else if response_code = HTTP_OK then
        j\<lparr>upload_fetcher := None,
          access_token := [],
          post_data := None,
          state := SUCCESS,
          delegate_calls := delegate_calls j @ [OnSuccess]\<rparr>
      else if response_code = HTTP_UNAUTHORIZED then HandleError AUTHENTICATION_ERROR j
      else HandleError SERVER_ERROR j)"

subsection \<open>Executions\<close>

text \<open>
  What can happen to a job: a call of its public interface, a callback of the token
  service for the outstanding request, the completion of the outstanding fetcher, or the
  task runner running the oldest posted task. \<open>fire\<close> is \<open>None\<close> when the event cannot
  happen: a callback with no request outstanding, a completion with no fetcher, a
  task run with no task posted, a setter call that aborts the process.
\<close>

datatype event =
  AddDataSegment_ev string string std_map string
| Start_ev
| GetTokenSuccess_ev string
| GetTokenFailure_ev
| URLFetchComplete_ev bool int
| DelayedTask_ev
| SetRetryDelayForTesting_ev int

fun run_task :: "delayed_task \<Rightarrow> job \<Rightarrow> job" where
  "run_task RequestAccessToken_task j = RequestAccessToken j"
| "run_task StartUpload_task j = StartUpload j"

fun fire :: "event \<Rightarrow> job \<Rightarrow> job option" where
  "fire (AddDataSegment_ev name filename header_entries data) j =
     Some (AddDataSegment name filename header_entries data j)"
| "fire Start_ev j = Some (Start j)"
| "fire (GetTokenSuccess_ev token) j =
     (if access_token_request j then Some (OnGetTokenSuccess token j) else None)"
| "fire GetTokenFailure_ev j =
     (if access_token_request j then Some (OnGetTokenFailure j) else None)"
| "fire (URLFetchComplete_ev status_is_success response_code) j =
     (if upload_fetcher j \<noteq> None
      then Some (OnURLFetchComplete status_is_success response_code j) else None)"
| "fire DelayedTask_ev j =
     (case task_runner j of
        [] \<Rightarrow> None
      | (t, d) # ts \<Rightarrow> Some (run_task t (j\<lparr>task_runner := ts\<rparr>)))"
| "fire (SetRetryDelayForTesting_ev retry_delay_ms) j = SetRetryDelayForTesting retry_delay_ms j"

fun exec :: "event list \<Rightarrow> job \<Rightarrow> job option" where
  "exec [] j = Some j"
| "exec (e # es) j = (case fire e j of None \<Rightarrow> None | Some j' \<Rightarrow> exec es j')"

inductive reachable :: "job \<Rightarrow> bool" where
  reachable_init: "reachable (UploadJobImpl url account generator retry_delay_ms)"
| reachable_step: "reachable j \<Longrightarrow> fire e j = Some j' \<Longrightarrow> reachable j'"

subsection \<open>The phases of a job\<close>

text \<open>
  Every job that an execution reaches is in one of six phases, told apart by what it is
  waiting for: nothing yet (idle), the token callback, the fetcher's completion, the
  delayed task that requests a new token, the delayed task that uploads again, or nothing
  any more (done). Each phase fixes the state, what is outstanding, and how the counters
  relate.
\<close>

definition terminal :: "State \<Rightarrow> bool" where
  "terminal s = (s = SUCCESS \<or> s = ERROR)"

fun is_StartRequest :: "token_service_call \<Rightarrow> bool" where
  "is_StartRequest (StartRequest a) = True"
| "is_StartRequest (InvalidateAccessToken a t) = False"

definition token_requests :: "job \<Rightarrow> int" where
  "token_requests j = int (length (filter is_StartRequest (token_service_calls j)))"

definition posts :: "job \<Rightarrow> int" where
  "posts j = int (length (started_fetchers j))"

definition quiet :: "job \<Rightarrow> bool" where
  "quiet j = (\<not> access_token_request j \<and> upload_fetcher j = None \<and> task_runner j = [])"

definition unassembled :: "job \<Rightarrow> bool" where
  "unassembled j = (mime_boundary j = None \<and> post_data j = None \<and> boundary_calls j = 0)"

definition assembled :: "job \<Rightarrow> bool" where
  "assembled j =
     (mime_boundary j = Some (boundary_generator j 0) \<and> boundary_calls j = 1 \<and>
      data_segments j = [])"

text \<open>The request that \<open>CreateAndStartURLFetcher\<close> builds from the job's current members.\<close>

definition request_of :: "job \<Rightarrow> URLFetcher" where
  "request_of j =
     \<lparr> fetch_url = upload_url j,
       upload_content_type = kUploadContentType @ ''; boundary='' @ the (mime_boundary j),
       upload_content = the (post_data j),
       extra_request_header = ''Authorization: Bearer '' @ c_str (access_token j) \<rparr>"

definition inv_Idle :: "job \<Rightarrow> bool" where
  "inv_Idle j =
     (state j = IDLE \<and> quiet j \<and> retry j = 0 \<and> unassembled j \<and>
      delegate_calls j = [] \<and> posts j = 0 \<and> token_requests j = 0)"

definition inv_AwaitToken :: "job \<Rightarrow> bool" where
  "inv_AwaitToken j =
     (state j = ACQUIRING_TOKEN \<and>
      access_token_request j \<and> upload_fetcher j = None \<and> task_runner j = [] \<and>
      0 \<le> retry j \<and> retry j < kMaxAttempts \<and>
      (unassembled j \<or> assembled j \<and> post_data j \<noteq> None) \<and>
      delegate_calls j = [] \<and> posts j \<le> retry j \<and> token_requests j \<le> retry j + 1)"

definition inv_AwaitFetch :: "job \<Rightarrow> bool" where
  "inv_AwaitFetch j =
     (state j = UPLOADING \<and>
      \<not> access_token_request j \<and> upload_fetcher j = Some (request_of j) \<and> task_runner j = [] \<and>
      0 \<le> retry j \<and> retry j < kMaxAttempts \<and>
      assembled j \<and> post_data j \<noteq> None \<and>
      delegate_calls j = [] \<and> posts j \<le> retry j + 1 \<and> token_requests j \<le> retry j + 1)"

definition inv_AwaitTokenRetry :: "job \<Rightarrow> bool" where
  "inv_AwaitTokenRetry j =
     ((state j = ACQUIRING_TOKEN \<or> state j = UPLOADING) \<and>
      \<not> access_token_request j \<and> upload_fetcher j = None \<and>
      (\<exists>d. task_runner j = [(RequestAccessToken_task, d)]) \<and>
      0 \<le> retry j \<and> retry j < kMaxAttempts \<and>
      (unassembled j \<or> assembled j \<and> post_data j \<noteq> None) \<and>
      access_token j = [] \<and>
      delegate_calls j = [] \<and> posts j \<le> retry j \<and> token_requests j \<le> retry j)"

definition inv_AwaitUploadRetry :: "job \<Rightarrow> bool" where
  "inv_AwaitUploadRetry j =
     (state j = ACQUIRING_TOKEN \<and>
      \<not> access_token_request j \<and> upload_fetcher j = None \<and>
      (\<exists>d. task_runner j = [(StartUpload_task, d)]) \<and>
      0 \<le> retry j \<and> retry j < kMaxAttempts \<and>
      assembled j \<and> post_data j \<noteq> None \<and>
      delegate_calls j = [] \<and> posts j \<le> retry j \<and> token_requests j \<le> retry j)"

definition inv_Done :: "job \<Rightarrow> bool" where
  "inv_Done j =
     (quiet j \<and> post_data j = None \<and> (unassembled j \<or> assembled j) \<and>
      0 \<le> retry j \<and> posts j \<le> kMaxAttempts \<and> token_requests j \<le> kMaxAttempts \<and>
      (state j = SUCCESS \<and> delegate_calls j = [OnSuccess] \<and> retry j < kMaxAttempts \<and> assembled j
       \<or> state j = ERROR \<and> retry j = kMaxAttempts \<and> (\<exists>e. delegate_calls j = [OnFailure e])
       \<or> state j = ERROR \<and> retry j < kMaxAttempts \<and> delegate_calls j = [] \<and> unassembled j))"

definition job_inv :: "job \<Rightarrow> bool" where
  "job_inv j =
     (inv_Idle j \<or> inv_AwaitToken j \<or> inv_AwaitFetch j \<or> inv_AwaitTokenRetry j \<or>
      inv_AwaitUploadRetry j \<or> inv_Done j)"

text \<open>A fetcher carries the body and the boundary that a job holds.\<close>

definition carries :: "job \<Rightarrow> URLFetcher \<Rightarrow> bool" where
  "carries j f =
     (upload_content f = the (post_data j) \<and>
      upload_content_type f = kUploadContentType @ ''; boundary='' @ the (mime_boundary j))"

subsection \<open>The layout of the body, and a parser for it\<close>

text \<open>
  The layout as the specification words it: per segment a delimiter line, the
  \<open>Content-Disposition\<close> line, one line per custom header entry, an empty line, the data
  and a line break; after the last segment the closing delimiter line.
\<close>

definition header_line :: "string \<times> string \<Rightarrow> string" where
  "header_line entry = fst entry @ '': '' @ snd entry @ CRLF"

definition content_disposition :: "DataSegment \<Rightarrow> string" where
  "content_disposition s =
     ''Content-Disposition: form-data; name='' @ DQUOTE @ GetName s @ DQUOTE @
     (if GetFilename s \<noteq> [] then ''; filename='' @ DQUOTE @ GetFilename s @ DQUOTE else [])"

definition part :: "string \<Rightarrow> DataSegment \<Rightarrow> string" where
  "part boundary s =
     ''--'' @ boundary @ CRLF @
     content_disposition s @ CRLF @
     concat (map header_line (entries_of (GetHeaderEntries s))) @
     CRLF @ GetData s @ CRLF"

definition body_layout :: "string \<Rightarrow> DataSegment list \<Rightarrow> string" where
  "body_layout boundary segments =
     concat (map (part boundary) segments) @ ''--'' @ boundary @ ''--'' @ CRLF"



































subsection \<open>Example jobs\<close>

text \<open>
  One job with one segment, followed through a first upload that succeeds. The boundary
  generator always answers \<open>B\<close>.
\<close>

definition example_url :: GURL where
  "example_url = \<lparr>spec = ''https://upload.example/log'', is_valid = True\<rparr>"

definition example_idle :: job where
  "example_idle =
     AddDataSegment ''file1'' ''a.txt'' (map_insert ''Content-Type'' ''text/plain'' map_empty) ''hello''
       (UploadJobImpl example_url ''device'' (\<lambda>k. ''B'') 25000)"

definition example_uploading :: job where
  "example_uploading = OnGetTokenSuccess ''T'' (Start example_idle)"

definition example_done :: job where
  "example_done = OnURLFetchComplete True 200 example_uploading"


text \<open>A job with two segments of the same name.\<close>

definition example_dup_idle :: job where
  "example_dup_idle =
     AddDataSegment ''f'' [] map_empty ''second''
       (AddDataSegment ''f'' [] map_empty ''first''
          (UploadJobImpl example_url ''device'' (\<lambda>k. ''B'') 25000))"

text \<open>The example job after a first upload answered with HTTP 500, and with HTTP 401.\<close>

definition example_after_500 :: job where
  "example_after_500 = OnURLFetchComplete True 500 example_uploading"



text \<open>An idle job whose one segment holds two header entries, inserted in descending order.\<close>

definition example_two_headers :: job where
  "example_two_headers =
     AddDataSegment ''f'' [] (map_insert ''a'' ''1'' (map_insert ''b'' ''2'' map_empty)) ''x''
       (UploadJobImpl example_url ''device'' (\<lambda>k. ''B'') 25000)"




text \<open>
  The example job after three failed token requests, waiting for the fourth token; and
  after three uploads answered with HTTP 500, waiting for the answer to the fourth.
\<close>

definition example_fourth_token :: job where
  "example_fourth_token =
     the (exec [Start_ev, GetTokenFailure_ev, DelayedTask_ev, GetTokenFailure_ev, DelayedTask_ev,
                GetTokenFailure_ev, DelayedTask_ev] example_idle)"

definition example_fourth_upload :: job where
  "example_fourth_upload =
     the (exec [Start_ev, GetTokenSuccess_ev ''T'',
                URLFetchComplete_ev True 500, DelayedTask_ev,
                URLFetchComplete_ev True 500, DelayedTask_ev,
                URLFetchComplete_ev True 500, DelayedTask_ev] example_idle)"

section \<open>Properties\<close>

subsection \<open>The phase invariant\<close>

lemmas aux_defs = quiet_def unassembled_def assembled_def posts_def token_requests_def kMaxAttempts_def
  request_of_def

lemma int32_increment_small: "r < kMaxAttempts \<Longrightarrow> int32_increment r = r + 1"
  by (simp add: int32_increment_def kMaxAttempts_def)

lemma init_phase: "inv_Idle (UploadJobImpl url account generator d) \<or> inv_Done (UploadJobImpl url account generator d)"
  by (simp add: inv_Idle_def inv_Done_def UploadJobImpl_def aux_defs)

lemma Idle_AddDataSegment: "inv_Idle j \<Longrightarrow> inv_Idle (AddDataSegment n f h d j)"
  by (simp add: inv_Idle_def AddDataSegment_def aux_defs)

lemma Idle_Start: "inv_Idle j \<Longrightarrow> inv_AwaitToken (Start j)"
  by (simp add: inv_Idle_def inv_AwaitToken_def Start_def RequestAccessToken_def aux_defs)

lemma AwaitToken_Failure:
  "inv_AwaitToken j \<Longrightarrow> inv_AwaitTokenRetry (OnGetTokenFailure j) \<or> inv_Done (OnGetTokenFailure j)"
  by (auto simp add: inv_AwaitToken_def inv_AwaitTokenRetry_def inv_Done_def OnGetTokenFailure_def
      HandleError_def int32_increment_def Let_def aux_defs)

lemma AwaitToken_Success:
  "inv_AwaitToken j \<Longrightarrow> inv_AwaitFetch (OnGetTokenSuccess t j) \<or> inv_Done (OnGetTokenSuccess t j)"
  by (auto simp add: inv_AwaitToken_def inv_AwaitFetch_def inv_Done_def OnGetTokenSuccess_def
      StartUpload_def SetUpMultipart_def CreateAndStartURLFetcher_def Let_def aux_defs)

lemma AwaitFetch_Complete:
  "inv_AwaitFetch j \<Longrightarrow>
   inv_Done (OnURLFetchComplete ok code j) \<or> inv_AwaitTokenRetry (OnURLFetchComplete ok code j) \<or>
   inv_AwaitUploadRetry (OnURLFetchComplete ok code j)"
  by (auto simp add: inv_AwaitFetch_def inv_AwaitTokenRetry_def inv_AwaitUploadRetry_def inv_Done_def
      OnURLFetchComplete_def HandleError_def int32_increment_def Let_def aux_defs)

lemma AwaitTokenRetry_Task:
  "inv_AwaitTokenRetry j \<Longrightarrow> inv_AwaitToken (RequestAccessToken (j\<lparr>task_runner := []\<rparr>))"
  by (auto simp add: inv_AwaitTokenRetry_def inv_AwaitToken_def RequestAccessToken_def aux_defs)

lemma AwaitUploadRetry_Task:
  "inv_AwaitUploadRetry j \<Longrightarrow> inv_AwaitFetch (StartUpload (j\<lparr>task_runner := []\<rparr>))"
  by (auto simp add: inv_AwaitUploadRetry_def inv_AwaitFetch_def StartUpload_def SetUpMultipart_def
      CreateAndStartURLFetcher_def Let_def aux_defs)

lemma phase_state:
  "inv_Idle j \<Longrightarrow> state j = IDLE"
  "inv_AwaitToken j \<Longrightarrow> state j = ACQUIRING_TOKEN"
  "inv_AwaitFetch j \<Longrightarrow> state j = UPLOADING"
  "inv_AwaitTokenRetry j \<Longrightarrow> state j = ACQUIRING_TOKEN \<or> state j = UPLOADING"
  "inv_AwaitUploadRetry j \<Longrightarrow> state j = ACQUIRING_TOKEN"
  "inv_Done j \<Longrightarrow> state j = SUCCESS \<or> state j = ERROR"
  by (auto simp: inv_Idle_def inv_AwaitToken_def inv_AwaitFetch_def inv_AwaitTokenRetry_def
      inv_AwaitUploadRetry_def inv_Done_def)

lemma phase_pending:
  "inv_Idle j \<Longrightarrow> quiet j"
  "inv_AwaitToken j \<Longrightarrow> access_token_request j \<and> upload_fetcher j = None \<and> task_runner j = []"
  "inv_AwaitFetch j \<Longrightarrow> \<not> access_token_request j \<and> upload_fetcher j \<noteq> None \<and> task_runner j = []"
  "inv_AwaitTokenRetry j \<Longrightarrow>
     \<not> access_token_request j \<and> upload_fetcher j = None \<and> (\<exists>d. task_runner j = [(RequestAccessToken_task, d)])"
  "inv_AwaitUploadRetry j \<Longrightarrow>
     \<not> access_token_request j \<and> upload_fetcher j = None \<and> (\<exists>d. task_runner j = [(StartUpload_task, d)])"
  "inv_Done j \<Longrightarrow> quiet j"
  by (auto simp: inv_Idle_def inv_AwaitToken_def inv_AwaitFetch_def inv_AwaitTokenRetry_def
      inv_AwaitUploadRetry_def inv_Done_def)

lemma not_idle_noop:
  "state j \<noteq> IDLE \<Longrightarrow> AddDataSegment n f h d j = j"
  "state j \<noteq> IDLE \<Longrightarrow> Start j = j"
  by (simp_all add: AddDataSegment_def Start_def)

lemma phase_SetRetryDelay:
  "inv_Idle j \<Longrightarrow> inv_Idle (j\<lparr>g_retry_delay_ms := d\<rparr>)"
  "inv_AwaitToken j \<Longrightarrow> inv_AwaitToken (j\<lparr>g_retry_delay_ms := d\<rparr>)"
  "inv_AwaitFetch j \<Longrightarrow> inv_AwaitFetch (j\<lparr>g_retry_delay_ms := d\<rparr>)"
  "inv_AwaitTokenRetry j \<Longrightarrow> inv_AwaitTokenRetry (j\<lparr>g_retry_delay_ms := d\<rparr>)"
  "inv_AwaitUploadRetry j \<Longrightarrow> inv_AwaitUploadRetry (j\<lparr>g_retry_delay_ms := d\<rparr>)"
  "inv_Done j \<Longrightarrow> inv_Done (j\<lparr>g_retry_delay_ms := d\<rparr>)"
  by (auto simp add: inv_Idle_def inv_AwaitToken_def inv_AwaitFetch_def inv_AwaitTokenRetry_def
      inv_AwaitUploadRetry_def inv_Done_def aux_defs)

lemma job_inv_fire:
  assumes "job_inv j" and "fire e j = Some j'"
  shows "job_inv j'"
proof (cases e)
  case (AddDataSegment_ev n f h d)
  then have j': "j' = AddDataSegment n f h d j" using assms(2) by simp
  show ?thesis
  proof (cases "state j = IDLE")
    case True
    then have "inv_Idle j" using assms(1) phase_state[of j] by (auto simp: job_inv_def)
    then show ?thesis unfolding j' job_inv_def using Idle_AddDataSegment by blast
  next
    case False
    then show ?thesis using assms(1) by (simp add: j' not_idle_noop)
  qed
next
  case Start_ev
  then have j': "j' = Start j" using assms(2) by simp
  show ?thesis
  proof (cases "state j = IDLE")
    case True
    then have "inv_Idle j" using assms(1) phase_state[of j] by (auto simp: job_inv_def)
    then show ?thesis unfolding j' job_inv_def using Idle_Start by blast
  next
    case False
    then show ?thesis using assms(1) by (simp add: j' not_idle_noop)
  qed
next
  case (GetTokenSuccess_ev t)
  then have req: "access_token_request j" and j': "j' = OnGetTokenSuccess t j"
    using assms(2) by (auto split: if_splits)
  have "inv_AwaitToken j"
    using assms(1) req phase_pending[of j] by (auto simp: job_inv_def quiet_def)
  then show ?thesis unfolding j' job_inv_def using AwaitToken_Success by blast
next
  case GetTokenFailure_ev
  then have req: "access_token_request j" and j': "j' = OnGetTokenFailure j"
    using assms(2) by (auto split: if_splits)
  have "inv_AwaitToken j"
    using assms(1) req phase_pending[of j] by (auto simp: job_inv_def quiet_def)
  then show ?thesis unfolding j' job_inv_def using AwaitToken_Failure by blast
next
  case (URLFetchComplete_ev ok code)
  then have req: "upload_fetcher j \<noteq> None" and j': "j' = OnURLFetchComplete ok code j"
    using assms(2) by (auto split: if_splits)
  have "inv_AwaitFetch j"
    using assms(1) req phase_pending[of j] by (auto simp: job_inv_def quiet_def)
  then show ?thesis unfolding j' job_inv_def using AwaitFetch_Complete by blast
next
  case DelayedTask_ev
  then obtain t d ts where ts: "task_runner j = (t, d) # ts"
    and j': "j' = run_task t (j\<lparr>task_runner := ts\<rparr>)"
    using assms(2) by (auto split: list.splits)
  from assms(1) ts phase_pending[of j]
  consider "inv_AwaitTokenRetry j" "t = RequestAccessToken_task" "ts = []"
    | "inv_AwaitUploadRetry j" "t = StartUpload_task" "ts = []"
    by (auto simp: job_inv_def quiet_def)
  then show ?thesis
  proof cases
    case 1
    then show ?thesis unfolding j' job_inv_def using AwaitTokenRetry_Task by auto
  next
    case 2
    then show ?thesis unfolding j' job_inv_def using AwaitUploadRetry_Task by auto
  qed
next
  case (SetRetryDelayForTesting_ev d)
  then have j': "j' = j\<lparr>g_retry_delay_ms := d\<rparr>"
    using assms(2) by (auto simp: SetRetryDelayForTesting_def split: if_splits)
  show ?thesis using assms(1) unfolding j' job_inv_def using phase_SetRetryDelay by blast
qed

lemma reachable_inv: "reachable j \<Longrightarrow> job_inv j"
proof (induction rule: reachable.induct)
  case (reachable_init url account generator d)
  show ?case using init_phase unfolding job_inv_def by blast
next
  case (reachable_step j e j')
  then show ?case using job_inv_fire by blast
qed

subsection \<open>Executions and what the phases give\<close>

lemma exec_append: "exec (es @ es') j = (case exec es j of None \<Rightarrow> None | Some j' \<Rightarrow> exec es' j')"
  by (induction es arbitrary: j) (auto split: option.splits)

lemma reachable_exec: "reachable j \<Longrightarrow> exec es j = Some j' \<Longrightarrow> reachable j'"
proof (induction es arbitrary: j)
  case Nil
  then show ?case by simp
next
  case (Cons e es)
  then obtain j1 where "fire e j = Some j1" "exec es j1 = Some j'"
    by (auto split: option.splits)
  with Cons show ?case using reachable_step by blast
qed

lemma phase_Idle: "reachable j \<Longrightarrow> state j = IDLE \<Longrightarrow> inv_Idle j"
  using reachable_inv[of j] phase_state[of j] by (auto simp: job_inv_def)

lemma phase_AwaitToken: "reachable j \<Longrightarrow> access_token_request j \<Longrightarrow> inv_AwaitToken j"
  using reachable_inv[of j] phase_pending[of j] by (auto simp: job_inv_def quiet_def)

lemma phase_AwaitFetch: "reachable j \<Longrightarrow> upload_fetcher j \<noteq> None \<Longrightarrow> inv_AwaitFetch j"
  using reachable_inv[of j] phase_pending[of j] by (auto simp: job_inv_def quiet_def)

lemma reachable_bounds:
  assumes "reachable j"
  shows "0 \<le> retry j \<and> retry j \<le> kMaxAttempts \<and> posts j \<le> kMaxAttempts \<and>
         token_requests j \<le> kMaxAttempts \<and>
         (retry j = kMaxAttempts \<longrightarrow>
            state j = ERROR \<and> quiet j \<and> (\<exists>e. delegate_calls j = [OnFailure e]))"
proof -
  from reachable_inv[OF assms]
  consider "inv_Idle j" | "inv_AwaitToken j" | "inv_AwaitFetch j" | "inv_AwaitTokenRetry j"
    | "inv_AwaitUploadRetry j" | "inv_Done j"
    by (auto simp: job_inv_def)
  then show ?thesis
  proof cases
    case 1 then show ?thesis by (simp add: inv_Idle_def kMaxAttempts_def)
  next
    case 2 then show ?thesis by (simp add: inv_AwaitToken_def kMaxAttempts_def)
  next
    case 3 then show ?thesis by (simp add: inv_AwaitFetch_def kMaxAttempts_def)
  next
    case 4 then show ?thesis by (simp add: inv_AwaitTokenRetry_def kMaxAttempts_def)
  next
    case 5 then show ?thesis by (simp add: inv_AwaitUploadRetry_def kMaxAttempts_def)
  next
    case 6 then show ?thesis by (auto simp add: inv_Done_def kMaxAttempts_def)
  qed
qed

lemma reachable_delegate:
  assumes "reachable j"
  shows "(\<not> terminal (state j) \<longrightarrow> delegate_calls j = []) \<and> length (delegate_calls j) \<le> 1"
proof -
  from reachable_inv[OF assms]
  consider "inv_Idle j" | "inv_AwaitToken j" | "inv_AwaitFetch j" | "inv_AwaitTokenRetry j"
    | "inv_AwaitUploadRetry j" | "inv_Done j"
    by (auto simp: job_inv_def)
  then show ?thesis
  proof cases
    case 1 then show ?thesis by (simp add: inv_Idle_def)
  next
    case 2 then show ?thesis by (simp add: inv_AwaitToken_def)
  next
    case 3 then show ?thesis by (simp add: inv_AwaitFetch_def)
  next
    case 4 then show ?thesis by (simp add: inv_AwaitTokenRetry_def)
  next
    case 5 then show ?thesis by (simp add: inv_AwaitUploadRetry_def)
  next
    case 6 then show ?thesis by (auto simp add: inv_Done_def terminal_def)
  qed
qed

lemma reachable_body:
  assumes "reachable j"
  shows "(unassembled j \<or> assembled j \<and> (post_data j \<noteq> None \<or> terminal (state j))) \<and>
         (state j = IDLE \<longrightarrow> unassembled j)"
proof -
  from reachable_inv[OF assms]
  consider "inv_Idle j" | "inv_AwaitToken j" | "inv_AwaitFetch j" | "inv_AwaitTokenRetry j"
    | "inv_AwaitUploadRetry j" | "inv_Done j"
    by (auto simp: job_inv_def)
  then show ?thesis
  proof cases
    case 1 then show ?thesis by (simp add: inv_Idle_def)
  next
    case 2 then show ?thesis by (auto simp add: inv_AwaitToken_def)
  next
    case 3 then show ?thesis by (simp add: inv_AwaitFetch_def)
  next
    case 4 then show ?thesis by (auto simp add: inv_AwaitTokenRetry_def)
  next
    case 5 then show ?thesis by (simp add: inv_AwaitUploadRetry_def)
  next
    case 6 then show ?thesis by (auto simp add: inv_Done_def terminal_def)
  qed
qed

lemma Done_fire:
  assumes "inv_Done j" and "fire e j = Some j'"
  shows "\<exists>d. j' = j\<lparr>g_retry_delay_ms := d\<rparr>"
proof -
  have st: "state j \<noteq> IDLE" and q: "quiet j"
    using assms(1) by (auto simp: inv_Done_def)
  have same: "j = j\<lparr>g_retry_delay_ms := g_retry_delay_ms j\<rparr>" by simp
  show ?thesis
  proof (cases e)
    case (AddDataSegment_ev n f h d)
    then have "j' = j" using assms(2) st by (simp add: not_idle_noop)
    then show ?thesis using same by metis
  next
    case Start_ev
    then have "j' = j" using assms(2) st by (simp add: not_idle_noop)
    then show ?thesis using same by metis
  next
    case (GetTokenSuccess_ev t)
    then show ?thesis using assms(2) q by (simp add: quiet_def)
  next
    case GetTokenFailure_ev
    then show ?thesis using assms(2) q by (simp add: quiet_def)
  next
    case (URLFetchComplete_ev ok code)
    then show ?thesis using assms(2) q by (simp add: quiet_def)
  next
    case DelayedTask_ev
    then show ?thesis using assms(2) q by (simp add: quiet_def)
  next
    case (SetRetryDelayForTesting_ev d)
    then have "j' = j\<lparr>g_retry_delay_ms := d\<rparr>"
      using assms(2) by (simp add: SetRetryDelayForTesting_def split: if_splits)
    then show ?thesis by blast
  qed
qed

lemma terminal_Done: "reachable j \<Longrightarrow> terminal (state j) \<Longrightarrow> inv_Done j"
  using reachable_inv[of j] phase_state[of j] by (auto simp: job_inv_def terminal_def)

lemma terminal_fire:
  assumes "reachable j" "terminal (state j)" "fire e j = Some j'"
  shows "\<exists>d. j' = j\<lparr>g_retry_delay_ms := d\<rparr>"
  using Done_fire[OF terminal_Done[OF assms(1,2)] assms(3)] .

lemma terminal_exec:
  assumes "reachable j" "terminal (state j)" "exec es j = Some j'"
  shows "\<exists>d. j' = j\<lparr>g_retry_delay_ms := d\<rparr>"
  using assms
proof (induction es arbitrary: j)
  case Nil
  then have "j' = j\<lparr>g_retry_delay_ms := g_retry_delay_ms j\<rparr>" by simp
  then show ?case by blast
next
  case (Cons e es)
  then obtain j1 where f: "fire e j = Some j1" and x: "exec es j1 = Some j'"
    by (auto split: option.splits)
  from terminal_fire[OF Cons.prems(1,2) f] obtain d where j1: "j1 = j\<lparr>g_retry_delay_ms := d\<rparr>"
    by blast
  have r1: "reachable j1" using Cons.prems(1) f reachable_step by blast
  have t1: "terminal (state j1)" using Cons.prems(2) j1 by simp
  from Cons.IH[OF r1 t1 x] obtain d' where "j' = j1\<lparr>g_retry_delay_ms := d'\<rparr>" by blast
  then have "j' = j\<lparr>g_retry_delay_ms := d'\<rparr>" by (simp add: j1)
  then show ?case by blast
qed

subsection \<open>Assembly and the cached body\<close>

lemma names_unique_iff:
  "names_unique ss used \<longleftrightarrow> distinct (map GetName ss) \<and> set (map GetName ss) \<inter> used = {}"
  by (induction ss arbitrary: used) auto

lemma SetUpMultipart_duplicate:
  assumes "\<not> distinct (map GetName (data_segments j))"
    and "mime_boundary j = None \<or> post_data j = None"
  shows "SetUpMultipart j = (False, j\<lparr>state := PREPARING_CONTENT\<rparr>)"
  using assms by (auto simp: SetUpMultipart_def Let_def names_unique_iff)

lemma HandleError_body:
  "mime_boundary (HandleError e j) = mime_boundary j \<and>
   data_segments (HandleError e j) = data_segments j \<and>
   boundary_calls (HandleError e j) = boundary_calls j \<and>
   started_fetchers (HandleError e j) = started_fetchers j \<and>
   (post_data (HandleError e j) = post_data j \<or>
    post_data (HandleError e j) = None \<and> terminal (state (HandleError e j)))"
  by (simp add: HandleError_def int32_increment_def Let_def terminal_def)

lemma StartUpload_cached:
  assumes "mime_boundary j \<noteq> None" "post_data j \<noteq> None"
  shows "StartUpload j =
           j\<lparr>upload_fetcher := Some (request_of j),
             started_fetchers := started_fetchers j @ [request_of j],
             state := UPLOADING\<rparr>"
  using assms
  by (simp add: StartUpload_def SetUpMultipart_def CreateAndStartURLFetcher_def Let_def request_of_def)

lemma fire_assembled:
  assumes "reachable j" and "mime_boundary j \<noteq> None" and "fire e j = Some j'"
  shows "mime_boundary j' = mime_boundary j \<and> data_segments j' = [] \<and>
         boundary_calls j' = boundary_calls j \<and>
         (post_data j' = post_data j \<or> post_data j' = None \<and> terminal (state j')) \<and>
         (started_fetchers j' = started_fetchers j \<or>
          post_data j \<noteq> None \<and> (\<exists>f. started_fetchers j' = started_fetchers j @ [f] \<and> carries j f))"
proof -
  have b: "assembled j" "post_data j \<noteq> None \<or> terminal (state j)" "state j \<noteq> IDLE"
    using reachable_body[OF assms(1)] assms(2) by (auto simp: unassembled_def)
  then have segs: "data_segments j = []" by (simp add: assembled_def)
  show ?thesis
  proof (cases e)
    case (AddDataSegment_ev n f h d)
    then show ?thesis using assms(3) b(3) segs by (auto simp: not_idle_noop)
  next
    case Start_ev
    then show ?thesis using assms(3) b(3) segs by (auto simp: not_idle_noop)
  next
    case (GetTokenSuccess_ev t)
    then have req: "access_token_request j" and j': "j' = OnGetTokenSuccess t j"
      using assms(3) by (auto split: if_splits)
    have "inv_AwaitToken j" using phase_AwaitToken[OF assms(1) req] .
    then have p: "post_data j \<noteq> None" using assms(2) by (auto simp: inv_AwaitToken_def unassembled_def)
    let ?k = "j\<lparr>access_token_request := False, access_token := t\<rparr>"
    have "j' = ?k\<lparr>upload_fetcher := Some (request_of ?k),
             started_fetchers := started_fetchers ?k @ [request_of ?k],
             state := UPLOADING\<rparr>"
      unfolding j' OnGetTokenSuccess_def using p assms(2) by (intro StartUpload_cached) simp_all
    then show ?thesis using p segs by (simp add: carries_def request_of_def)
  next
    case GetTokenFailure_ev
    then have j': "j' = HandleError AUTHENTICATION_ERROR (j\<lparr>access_token_request := False\<rparr>)"
      using assms(3) by (auto simp: OnGetTokenFailure_def split: if_splits)
    show ?thesis unfolding j'
      using HandleError_body[of AUTHENTICATION_ERROR "j\<lparr>access_token_request := False\<rparr>"] segs
      by auto
  next
    case (URLFetchComplete_ev ok code)
    then have j': "j' = OnURLFetchComplete ok code j"
      using assms(3) by (auto split: if_splits)
    show ?thesis unfolding j' OnURLFetchComplete_def
      using HandleError_body[of _ j] segs by (auto simp: terminal_def)
  next
    case DelayedTask_ev
    then obtain t d ts where ts: "task_runner j = (t, d) # ts"
      and j': "j' = run_task t (j\<lparr>task_runner := ts\<rparr>)"
      using assms(3) by (auto split: list.splits)
    have "\<not> quiet j" using ts by (simp add: quiet_def)
    then have nt: "\<not> terminal (state j)"
      using terminal_Done[OF assms(1)] by (auto simp: inv_Done_def)
    then have p: "post_data j \<noteq> None" using b(2) by blast
    show ?thesis
    proof (cases t)
      case RequestAccessToken_task
      then show ?thesis unfolding j' using segs by (simp add: RequestAccessToken_def)
    next
      case StartUpload_task
      let ?k = "j\<lparr>task_runner := ts\<rparr>"
      have "j' = ?k\<lparr>upload_fetcher := Some (request_of ?k),
             started_fetchers := started_fetchers ?k @ [request_of ?k],
             state := UPLOADING\<rparr>"
        unfolding j' StartUpload_task run_task.simps using p assms(2)
        by (intro StartUpload_cached) simp_all
      then show ?thesis using p segs by (simp add: carries_def request_of_def)
    qed
  next
    case (SetRetryDelayForTesting_ev d)
    then show ?thesis using assms(3) segs
      by (auto simp: SetRetryDelayForTesting_def split: if_splits)
  qed
qed

lemma exec_assembled:
  assumes "reachable j" and "mime_boundary j \<noteq> None" and "exec es j = Some j'"
  shows "mime_boundary j' = mime_boundary j \<and> data_segments j' = [] \<and>
         boundary_calls j' = boundary_calls j \<and>
         (post_data j' = post_data j \<or> post_data j' = None \<and> terminal (state j')) \<and>
         (\<exists>fs. started_fetchers j' = started_fetchers j @ fs \<and>
               (fs \<noteq> [] \<longrightarrow> post_data j \<noteq> None) \<and> (\<forall>f \<in> set fs. carries j f))"
  using assms
proof (induction es arbitrary: j)
  case Nil
  have "assembled j" using reachable_body[OF Nil.prems(1)] Nil.prems(2) by (auto simp: unassembled_def)
  then show ?case using Nil.prems(3) by (simp add: assembled_def)
next
  case (Cons e es)
  then obtain j1 where f: "fire e j = Some j1" and x: "exec es j1 = Some j'"
    by (auto split: option.splits)
  note s = fire_assembled[OF Cons.prems(1,2) f]
  have r1: "reachable j1" using Cons.prems(1) f reachable_step by blast
  have m1: "mime_boundary j1 \<noteq> None" using s Cons.prems(2) by simp
  note ih = Cons.IH[OF r1 m1 x]
  from ih obtain fs where fs: "started_fetchers j' = started_fetchers j1 @ fs"
    "fs \<noteq> [] \<longrightarrow> post_data j1 \<noteq> None" "\<forall>f \<in> set fs. carries j1 f"
    by blast
  from s obtain gs where gs: "started_fetchers j1 = started_fetchers j @ gs"
    "gs \<noteq> [] \<longrightarrow> post_data j \<noteq> None" "\<forall>f \<in> set gs. carries j f"
    by auto
  have c: "carries j1 f = carries j f" if "post_data j1 = post_data j" for f
    using that s by (simp add: carries_def)
  have same: "post_data j1 = post_data j" if "fs \<noteq> []"
    using that fs(2) s by auto
  have all: "\<forall>f \<in> set (gs @ fs). carries j f"
    using gs(3) fs(3) same c by (cases "fs = []") auto
  have ne: "gs @ fs \<noteq> [] \<longrightarrow> post_data j \<noteq> None"
    using gs(2) fs(2) same by (cases "fs = []") auto
  have pd: "post_data j' = post_data j \<or> post_data j' = None \<and> terminal (state j')"
  proof (cases "post_data j1 = post_data j")
    case True
    then show ?thesis using ih by auto
  next
    case False
    then have t: "post_data j1 = None" "terminal (state j1)" using s by auto
    from terminal_exec[OF r1 t(2) x] obtain d where "j' = j1\<lparr>g_retry_delay_ms := d\<rparr>" by blast
    then show ?thesis using t by simp
  qed
  have "started_fetchers j' = started_fetchers j @ (gs @ fs)" using fs(1) gs(1) by simp
  then have ex: "\<exists>fs. started_fetchers j' = started_fetchers j @ fs \<and>
               (fs \<noteq> [] \<longrightarrow> post_data j \<noteq> None) \<and> (\<forall>f \<in> set fs. carries j f)"
    using all ne by blast
  show ?case using ih s pd ex by simp
qed

lemma four_token_failures:
  assumes "inv_Idle j"
  shows "\<exists>j'. exec [Start_ev, GetTokenFailure_ev, DelayedTask_ev, GetTokenFailure_ev, DelayedTask_ev,
            GetTokenFailure_ev, DelayedTask_ev, GetTokenFailure_ev] j = Some j' \<and>
          state j' = ERROR \<and> delegate_calls j' = [OnFailure AUTHENTICATION_ERROR] \<and>
          retry j' = kMaxAttempts \<and> started_fetchers j' = started_fetchers j \<and>
          token_requests j' = 4"
  using assms
  by (simp add: inv_Idle_def quiet_def Start_def RequestAccessToken_def OnGetTokenFailure_def
      HandleError_def int32_increment_def Let_def kMaxAttempts_def token_requests_def)

subsection \<open>The layout written and the parser\<close>

lemma fold_append_concat:
  "fold (\<lambda>x acc. acc @ f x) xs acc = acc @ concat (map f xs)"
  by (induction xs arbitrary: acc) simp_all

lemma append_segment_part: "append_segment boundary post s = post @ part boundary s"
proof -
  have h: "(\<lambda>entry. fst entry @ '': '' @ snd entry @ CRLF) = header_line"
    by (rule ext) (simp add: header_line_def)
  show ?thesis
    unfolding append_segment_def Let_def fold_append_concat h part_def content_disposition_def
    by simp
qed

lemma assemble_layout: "assemble boundary segments = body_layout boundary segments"
proof -
  have "fold (\<lambda>s post. append_segment boundary post s) segments acc =
        acc @ concat (map (part boundary) segments)" for acc
    by (induction segments arbitrary: acc) (simp_all add: append_segment_part)
  then show ?thesis by (simp add: assemble_def body_layout_def)
qed

lemma SetUpMultipart_body:
  assumes "post_data j = None" and "names_unique (data_segments j) {}"
  shows "fst (SetUpMultipart j) \<and>
         mime_boundary (snd (SetUpMultipart j)) = Some (boundary_generator j (boundary_calls j)) \<and>
         post_data (snd (SetUpMultipart j)) =
           Some (concat (map (\<lambda>s.
                   ''--'' @ boundary_generator j (boundary_calls j) @ CRLF @
                   ''Content-Disposition: form-data; name='' @ DQUOTE @ GetName s @ DQUOTE @
                   (if GetFilename s \<noteq> [] then ''; filename='' @ DQUOTE @ GetFilename s @ DQUOTE
                    else []) @ CRLF @
                   concat (map (\<lambda>(k, v). k @ '': '' @ v @ CRLF) (entries_of (GetHeaderEntries s))) @
                   CRLF @ GetData s @ CRLF) (data_segments j)) @
                 ''--'' @ boundary_generator j (boundary_calls j) @ ''--'' @ CRLF)"
proof -
  have h: "header_line = (\<lambda>(k, v). k @ '': '' @ v @ CRLF)"
    by (rule ext) (simp add: header_line_def split: prod.splits)
  have p: "part b = (\<lambda>s. ''--'' @ b @ CRLF @
                   ''Content-Disposition: form-data; name='' @ DQUOTE @ GetName s @ DQUOTE @
                   (if GetFilename s \<noteq> [] then ''; filename='' @ DQUOTE @ GetFilename s @ DQUOTE
                    else []) @ CRLF @
                   concat (map (\<lambda>(k, v). k @ '': '' @ v @ CRLF) (entries_of (GetHeaderEntries s))) @
                   CRLF @ GetData s @ CRLF)" for b
    by (rule ext) (simp add: part_def content_disposition_def h)
  have "post_data (snd (SetUpMultipart j)) =
      Some (assemble (boundary_generator j (boundary_calls j)) (data_segments j))"
    and "fst (SetUpMultipart j)"
    and "mime_boundary (snd (SetUpMultipart j)) = Some (boundary_generator j (boundary_calls j))"
    using assms by (simp_all add: SetUpMultipart_def Let_def)
  then show ?thesis
    unfolding assemble_layout body_layout_def p by simp
qed






























subsection \<open>Ordered maps\<close>

lemma map_of_sorted_inject:
  assumes "sorted_wrt (<) (map fst xs)" and "sorted_wrt (<) (map fst ys)"
    and "map_of xs = map_of ys"
  shows "xs = (ys :: (string \<times> string) list)"
  using assms
proof (induction xs arbitrary: ys)
  case Nil
  then have "map_of ys = Map.empty" by simp
  then show ?case by (simp add: map_of_eq_empty_iff)
next
  case (Cons x xs)
  obtain k v where x: "x = (k, v)" by (cases x)
  have "ys \<noteq> []"
  proof
    assume "ys = []"
    then have "map_of (x # xs) = map_of []" using Cons.prems(3) by (simp only:)
    then have "map_of (x # xs) = Map.empty" by (simp only: map_of.simps(1))
    then have "x # xs = []" by (simp only: map_of_eq_empty_iff)
    then show False by simp
  qed
  then obtain k' v' ys' where ys: "ys = (k', v') # ys'" by (cases ys) auto
  have pt: "map_of (x # xs) a = map_of ys a" for a
    by (simp only: Cons.prems(3))
  have xs_gt: "\<forall>a \<in> set (map fst xs). k < a" using Cons.prems(1) by (simp add: x)
  have ys_gt: "\<forall>a \<in> set (map fst ys'). k' < a" using Cons.prems(2) by (simp add: ys)
  have k_notin: "map_of xs k = None" using xs_gt by (force simp: map_of_eq_None_iff)
  have k'_notin: "map_of ys' k' = None" using ys_gt by (force simp: map_of_eq_None_iff)
  have kk: "k = k'"
  proof (rule ccontr)
    assume ne: "k \<noteq> k'"
    show False
    proof (cases "k < k'")
      case True
      then have "k \<notin> set (map fst ys)" using ys_gt by (auto simp: ys)
      then have "map_of ys k = None" by (simp add: map_of_eq_None_iff)
      moreover have "map_of (x # xs) k = Some v" by (simp add: x)
      ultimately show False using pt[of k] by simp
    next
      case False
      then have lt: "k' < k" using ne by simp
      then have "k' \<notin> set (map fst (x # xs))" using xs_gt by (auto simp: x)
      then have "map_of (x # xs) k' = None" by (simp add: map_of_eq_None_iff)
      moreover have "map_of ys k' = Some v'" by (simp add: ys)
      ultimately show False using pt[of k'] by simp
    qed
  qed
  have vv: "v = v'"
  proof -
    have "map_of (x # xs) k = Some v" by (simp add: x)
    moreover have "map_of ys k = Some v'" by (simp add: ys kk)
    ultimately show ?thesis using pt[of k] by simp
  qed
  have "map_of xs = map_of ys'"
  proof (rule ext)
    fix a
    show "map_of xs a = map_of ys' a"
    proof (cases "a = k")
      case True
      then show ?thesis using k_notin k'_notin kk by simp
    next
      case False
      show ?thesis using pt[of a] False by (simp add: x ys kk)
    qed
  qed
  moreover have "sorted_wrt (<) (map fst xs)" "sorted_wrt (<) (map fst ys')"
    using Cons.prems(1,2) by (simp_all add: ys)
  ultimately have "xs = ys'" using Cons.IH by blast
  then show ?case by (simp add: x ys kk vv)
qed

lemma map_find_inject: "map_find m1 = map_find m2 \<Longrightarrow> m1 = m2"
proof (transfer)
  fix xs ys :: "(string \<times> string) list"
  assume "sorted_wrt (<) (map fst xs)" "sorted_wrt (<) (map fst ys)" "map_of xs = map_of ys"
  then show "xs = ys" by (rule map_of_sorted_inject)
qed

lemma entries_sorted: "sorted_wrt (<) (map fst (entries_of m))"
  using entries_of[of m] by simp

lemma map_find_empty: "map_find map_empty = Map.empty"
  by transfer simp

lemma map_of_ins_entry:
  "map_of (ins_entry k v es) a = (if a = k then Some v else map_of es a)"
proof (induction es)
  case Nil
  show ?case by simp
next
  case (Cons e es)
  obtain k' v' where e: "e = (k', v')" by (cases e)
  show ?case using Cons by (auto simp: e)
qed

lemma map_find_insert: "map_find (map_insert k v m) = (map_find m)(k \<mapsto> v)"
  by (rule ext) (simp add: map_find.rep_eq map_insert.rep_eq map_of_ins_entry)

lemma entries_lookup: "(k, v) \<in> set (entries_of m) \<longleftrightarrow> map_find m k = Some v"
proof -
  have "distinct (map fst (entries_of m))"
    using entries_sorted[of m] by (simp add: strict_sorted_iff)
  then show ?thesis by (simp add: map_find.rep_eq)
qed

lemma entries_keys: "map fst (entries_of m) = sorted_list_of_set (dom (map_find m))"
proof -
  have s: "sorted_wrt (<) (map fst (entries_of m))" by (rule entries_sorted)
  have d: "dom (map_find m) = set (map fst (entries_of m))"
    by (simp add: map_find.rep_eq dom_map_of_conv_image_fst)
  have "sorted (map fst (entries_of m))" "distinct (map fst (entries_of m))"
    using s by (simp_all add: strict_sorted_iff)
  then have "sorted_list_of_set (set (map fst (entries_of m))) = map fst (entries_of m)"
    by (rule sorted_list_of_set.idem_if_sorted_distinct)
  then show ?thesis unfolding d by (rule sym)
qed

subsection \<open>The example jobs\<close>

lemmas op_defs = UploadJobImpl_def AddDataSegment_def Start_def RequestAccessToken_def
  OnGetTokenSuccess_def OnGetTokenFailure_def StartUpload_def SetUpMultipart_def
  CreateAndStartURLFetcher_def HandleError_def int32_increment_def OnURLFetchComplete_def
  HTTP_OK_def HTTP_UNAUTHORIZED_def kMaxAttempts_def kUploadContentType_def Let_def

lemma example_idle_reachable: "reachable example_idle"
  unfolding example_idle_def
  by (rule reachable_step[OF reachable_init, where e = "AddDataSegment_ev ''file1'' ''a.txt'' (map_insert ''Content-Type'' ''text/plain'' map_empty) ''hello''"]) simp

lemma example_uploading_exec:
  "exec [Start_ev, GetTokenSuccess_ev ''T''] example_idle = Some example_uploading"
  by (simp add: example_uploading_def example_idle_def example_url_def op_defs)

lemma example_uploading_reachable: "reachable example_uploading"
  using reachable_exec[OF example_idle_reachable example_uploading_exec] .

lemma example_uploading_fetcher: "upload_fetcher example_uploading \<noteq> None"
  by (simp add: example_uploading_def example_idle_def example_url_def op_defs)

lemma example_uploading_facts:
  "state example_uploading = UPLOADING"
  "retry example_uploading = 0"
  "access_token example_uploading = ''T''"
  "task_runner example_uploading = []"
  "g_retry_delay_ms example_uploading = 25000"
  "account_id example_uploading = ''device''"
  "token_service_calls example_uploading = [StartRequest ''device'']"
  "post_data example_uploading = Some (assemble ''B''
      [\<lparr>GetName = ''file1'', GetFilename = ''a.txt'', GetData = ''hello'',
         GetHeaderEntries = map_insert ''Content-Type'' ''text/plain'' map_empty\<rparr>])"
  by (simp_all add: example_uploading_def example_idle_def example_url_def op_defs)

lemma example_done_reachable: "reachable example_done"
proof -
  have "fire (URLFetchComplete_ev True 200) example_uploading = Some example_done"
    using example_uploading_fetcher by (simp add: example_done_def)
  then show ?thesis using example_uploading_reachable reachable_step by blast
qed

lemma example_done_state: "state example_done = SUCCESS"
  by (simp add: example_done_def OnURLFetchComplete_def HTTP_OK_def)

lemma example_dup_reachable: "reachable (Start example_dup_idle)"
proof -
  have "exec [AddDataSegment_ev ''f'' [] map_empty ''first'',
              AddDataSegment_ev ''f'' [] map_empty ''second'', Start_ev]
          (UploadJobImpl example_url ''device'' (\<lambda>k. ''B'') 25000) = Some (Start example_dup_idle)"
    by (simp add: example_dup_idle_def)
  then show ?thesis using reachable_exec[OF reachable_init] by blast
qed

lemma example_fourth_token_exec:
  "exec [Start_ev, GetTokenFailure_ev, DelayedTask_ev, GetTokenFailure_ev, DelayedTask_ev,
         GetTokenFailure_ev, DelayedTask_ev] example_idle = Some example_fourth_token"
  by (simp add: example_fourth_token_def example_idle_def example_url_def op_defs)

lemma example_fourth_token_facts:
  "reachable example_fourth_token"
  "access_token_request example_fourth_token"
  "retry example_fourth_token = 3"
  "delegate_calls example_fourth_token = []"
  "task_runner example_fourth_token = []"
proof -
  show "reachable example_fourth_token"
    using reachable_exec[OF example_idle_reachable example_fourth_token_exec] .
  show "access_token_request example_fourth_token"
    "retry example_fourth_token = 3"
    "delegate_calls example_fourth_token = []"
    "task_runner example_fourth_token = []"
    by (simp_all add: example_fourth_token_def example_idle_def example_url_def op_defs)
qed

lemma example_fourth_upload_exec:
  "exec [Start_ev, GetTokenSuccess_ev ''T'',
         URLFetchComplete_ev True 500, DelayedTask_ev,
         URLFetchComplete_ev True 500, DelayedTask_ev,
         URLFetchComplete_ev True 500, DelayedTask_ev] example_idle = Some example_fourth_upload"
  by (simp add: example_fourth_upload_def example_idle_def example_url_def op_defs)

lemma example_fourth_upload_facts:
  "reachable example_fourth_upload"
  "upload_fetcher example_fourth_upload \<noteq> None"
  "retry example_fourth_upload = 3"
  "delegate_calls example_fourth_upload = []"
proof -
  show "reachable example_fourth_upload"
    using reachable_exec[OF example_idle_reachable example_fourth_upload_exec] .
  show "upload_fetcher example_fourth_upload \<noteq> None"
    "retry example_fourth_upload = 3"
    "delegate_calls example_fourth_upload = []"
    by (simp_all add: example_fourth_upload_def example_idle_def example_url_def op_defs)
qed

subsection \<open>The assembled body\<close>




subsection \<open>The bound on attempts\<close>

text \<open>
  C2. In every job that an execution reaches, the retry counter, the number of fetchers
  started and the number of token requests are at most \<open>kMaxAttempts\<close> = 4, and a
  counter of 4 means state ERROR with one \<open>OnFailure\<close> delivered and nothing
  outstanding. Every failure that an execution delivers (a failed token request, a
  fetcher that completes otherwise than with HTTP 200) adds exactly one to the counter,
  whatever the error; when the counter reaches 4 the job is in ERROR with one
  \<open>OnFailure\<close> and nothing scheduled, and below 4 exactly one retry is scheduled.
  \<open>HandleError\<close> itself adds one to every counter value below the largest 32-bit
  value, and is terminal when the sum is at least 4; at the largest value, which no
  execution reaches, the increment wraps around. Four token failures in a row from an
  idle job end in ERROR with the single delegate call \<open>OnFailure AUTHENTICATION_ERROR\<close>.
\<close>

theorem at_most_kMaxAttempts:
  "(reachable j \<longrightarrow>
      0 \<le> retry j \<and> retry j \<le> kMaxAttempts \<and> posts j \<le> kMaxAttempts \<and>
      token_requests j \<le> kMaxAttempts \<and>
      (retry j = kMaxAttempts \<longrightarrow>
         state j = ERROR \<and> quiet j \<and> (\<exists>e. delegate_calls j = [OnFailure e]))) \<and>
   (reachable j \<and> fire ev j = Some j' \<and>
    (ev = GetTokenFailure_ev \<or>
     ev = URLFetchComplete_ev status_is_success response_code \<and>
     \<not> (status_is_success \<and> response_code = 200)) \<longrightarrow>
      retry j' = retry j + 1 \<and>
      (retry j' = kMaxAttempts \<longrightarrow>
         state j' = ERROR \<and> (\<exists>e. delegate_calls j' = [OnFailure e]) \<and> quiet j') \<and>
      (retry j' < kMaxAttempts \<longrightarrow>
         state j' \<noteq> ERROR \<and> delegate_calls j' = [] \<and> length (task_runner j') = 1)) \<and>
   (- 2147483648 \<le> retry j \<and> retry j < 2147483647 \<longrightarrow>
      retry (HandleError error_code j) = retry j + 1 \<and>
      (retry j + 1 \<ge> kMaxAttempts \<longrightarrow>
         state (HandleError error_code j) = ERROR \<and>
         delegate_calls (HandleError error_code j) = delegate_calls j @ [OnFailure error_code] \<and>
         task_runner (HandleError error_code j) = task_runner j \<and>
         token_service_calls (HandleError error_code j) = token_service_calls j \<and>
         upload_fetcher (HandleError error_code j) = None)) \<and>
   (retry j = 2147483647 \<longrightarrow>
      retry (HandleError error_code j) = - 2147483648 \<and>
      delegate_calls (HandleError error_code j) = delegate_calls j \<and>
      length (task_runner (HandleError error_code j)) = length (task_runner j) + 1) \<and>
   (reachable j \<and> state j = IDLE \<longrightarrow>
      (\<exists>j'. exec [Start_ev, GetTokenFailure_ev, DelayedTask_ev, GetTokenFailure_ev, DelayedTask_ev,
                  GetTokenFailure_ev, DelayedTask_ev, GetTokenFailure_ev] j = Some j' \<and>
            state j' = ERROR \<and> delegate_calls j' = [OnFailure AUTHENTICATION_ERROR] \<and>
            retry j' = kMaxAttempts \<and> started_fetchers j' = started_fetchers j \<and>
            token_requests j' = 4))"
proof -
  have a: "retry (HandleError error_code j) = retry j + 1 \<and>
      (retry j + 1 \<ge> kMaxAttempts \<longrightarrow>
         state (HandleError error_code j) = ERROR \<and>
         delegate_calls (HandleError error_code j) = delegate_calls j @ [OnFailure error_code] \<and>
         task_runner (HandleError error_code j) = task_runner j \<and>
         token_service_calls (HandleError error_code j) = token_service_calls j \<and>
         upload_fetcher (HandleError error_code j) = None)"
    if "- 2147483648 \<le> retry j \<and> retry j < 2147483647"
    using that by (simp add: HandleError_def int32_increment_def Let_def)
  have b: "retry (HandleError error_code j) = - 2147483648 \<and>
      delegate_calls (HandleError error_code j) = delegate_calls j \<and>
      length (task_runner (HandleError error_code j)) = length (task_runner j) + 1"
    if "retry j = 2147483647"
    using that by (simp add: HandleError_def int32_increment_def Let_def kMaxAttempts_def)
  have c: "retry j' = retry j + 1 \<and>
      (retry j' = kMaxAttempts \<longrightarrow>
         state j' = ERROR \<and> (\<exists>e. delegate_calls j' = [OnFailure e]) \<and> quiet j') \<and>
      (retry j' < kMaxAttempts \<longrightarrow>
         state j' \<noteq> ERROR \<and> delegate_calls j' = [] \<and> length (task_runner j') = 1)"
    if h: "reachable j \<and> fire ev j = Some j' \<and>
      (ev = GetTokenFailure_ev \<or>
       ev = URLFetchComplete_ev status_is_success response_code \<and>
       \<not> (status_is_success \<and> response_code = 200))"
  proof -
    from h have r: "reachable j" and f: "fire ev j = Some j'" by auto
    from h consider "ev = GetTokenFailure_ev"
      | "ev = URLFetchComplete_ev status_is_success response_code"
        "\<not> (status_is_success \<and> response_code = 200)"
      by blast
    then show ?thesis
    proof cases
      case 1
      then have req: "access_token_request j" and j': "j' = OnGetTokenFailure j"
        using f by (auto split: if_splits)
      have inv: "inv_AwaitToken j" using phase_AwaitToken[OF r req] .
      then have rt: "retry j < kMaxAttempts" by (simp add: inv_AwaitToken_def)
      show ?thesis
        using inv unfolding j'
        by (auto simp add: OnGetTokenFailure_def HandleError_def int32_increment_small[OF rt]
            Let_def inv_AwaitToken_def quiet_def kMaxAttempts_def)
    next
      case 2
      then have fe: "upload_fetcher j \<noteq> None"
        and j': "j' = OnURLFetchComplete status_is_success response_code j"
        using f by (auto split: if_splits)
      have inv: "inv_AwaitFetch j" using phase_AwaitFetch[OF r fe] .
      then have rt: "retry j < kMaxAttempts" by (simp add: inv_AwaitFetch_def)
      show ?thesis
        using inv 2(2) unfolding j'
        by (auto simp add: OnURLFetchComplete_def HTTP_OK_def HTTP_UNAUTHORIZED_def HandleError_def
            int32_increment_small[OF rt] Let_def inv_AwaitFetch_def quiet_def kMaxAttempts_def)
    qed
  qed
  show ?thesis
    using a b c reachable_bounds[of j] four_token_failures[OF phase_Idle, of j] by blast
qed

theorem at_most_kMaxAttempts_witness:
  "reachable example_idle \<and> state example_idle = IDLE \<and>
   (\<exists>j'. exec [Start_ev, GetTokenFailure_ev, DelayedTask_ev, GetTokenFailure_ev, DelayedTask_ev,
                  GetTokenFailure_ev, DelayedTask_ev, GetTokenFailure_ev] example_idle = Some j' \<and>
            state j' = ERROR \<and> delegate_calls j' = [OnFailure AUTHENTICATION_ERROR] \<and>
            retry j' = 4) \<and>
   - 2147483648 \<le> retry example_idle \<and> retry example_idle < 2147483647 \<and>
   retry (HandleError NETWORK_ERROR example_idle) = 1 \<and>
   retry example_fourth_token + 1 \<ge> kMaxAttempts \<and>
   state (HandleError AUTHENTICATION_ERROR example_fourth_token) = ERROR \<and>
   delegate_calls (HandleError AUTHENTICATION_ERROR example_fourth_token) =
     [OnFailure AUTHENTICATION_ERROR] \<and>
   reachable example_fourth_token \<and>
   fire GetTokenFailure_ev example_fourth_token = Some (OnGetTokenFailure example_fourth_token) \<and>
   reachable (OnGetTokenFailure example_fourth_token) \<and>
   retry (OnGetTokenFailure example_fourth_token) = kMaxAttempts \<and>
   state (OnGetTokenFailure example_fourth_token) = ERROR \<and>
   quiet (OnGetTokenFailure example_fourth_token) \<and>
   posts (OnGetTokenFailure example_fourth_token) \<le> kMaxAttempts \<and>
   token_requests (OnGetTokenFailure example_fourth_token) \<le> kMaxAttempts \<and>
   reachable example_uploading \<and>
   fire (URLFetchComplete_ev True 500) example_uploading = Some example_after_500 \<and>
   retry example_after_500 = 1 \<and> retry example_after_500 < kMaxAttempts \<and>
   state example_after_500 \<noteq> ERROR \<and> length (task_runner example_after_500) = 1 \<and>
   retry (example_idle\<lparr>retry := 2147483647\<rparr>) = 2147483647 \<and>
   retry (HandleError SERVER_ERROR (example_idle\<lparr>retry := 2147483647\<rparr>)) = - 2147483648 \<and>
   delegate_calls (HandleError SERVER_ERROR (example_idle\<lparr>retry := 2147483647\<rparr>)) = []"
proof -
  have s: "state example_idle = IDLE" and r: "retry example_idle = 0"
    and dc: "delegate_calls example_idle = []"
    by (simp_all add: example_idle_def example_url_def UploadJobImpl_def AddDataSegment_def)
  note t = at_most_kMaxAttempts[of example_idle _ _ _ _ NETWORK_ERROR]
  from t s example_idle_reachable
  have a: "\<exists>j'. exec [Start_ev, GetTokenFailure_ev, DelayedTask_ev, GetTokenFailure_ev, DelayedTask_ev,
                  GetTokenFailure_ev, DelayedTask_ev, GetTokenFailure_ev] example_idle = Some j' \<and>
            state j' = ERROR \<and> delegate_calls j' = [OnFailure AUTHENTICATION_ERROR] \<and>
            retry j' = kMaxAttempts \<and> started_fetchers j' = started_fetchers example_idle \<and>
            token_requests j' = 4"
    by blast
  then have a': "\<exists>j'. exec [Start_ev, GetTokenFailure_ev, DelayedTask_ev, GetTokenFailure_ev, DelayedTask_ev,
                  GetTokenFailure_ev, DelayedTask_ev, GetTokenFailure_ev] example_idle = Some j' \<and>
            state j' = ERROR \<and> delegate_calls j' = [OnFailure AUTHENTICATION_ERROR] \<and>
            retry j' = 4"
    unfolding kMaxAttempts_def by blast
  have rg: "- 2147483648 \<le> retry example_idle \<and> retry example_idle < 2147483647"
    using r by simp
  from t rg have "retry (HandleError NETWORK_ERROR example_idle) = retry example_idle + 1" by blast
  then have b: "retry (HandleError NETWORK_ERROR example_idle) = 1" using r by simp
  have c: "retry example_fourth_token + 1 \<ge> kMaxAttempts"
    and rg4: "- 2147483648 \<le> retry example_fourth_token \<and> retry example_fourth_token < 2147483647"
    by (simp_all add: example_fourth_token_facts kMaxAttempts_def)
  note t4 = at_most_kMaxAttempts[of example_fourth_token GetTokenFailure_ev
      "OnGetTokenFailure example_fourth_token" True 0 AUTHENTICATION_ERROR]
  from t4 c rg4 have d: "state (HandleError AUTHENTICATION_ERROR example_fourth_token) = ERROR"
    and e0: "delegate_calls (HandleError AUTHENTICATION_ERROR example_fourth_token) =
       delegate_calls example_fourth_token @ [OnFailure AUTHENTICATION_ERROR]"
    by blast+
  have e: "delegate_calls (HandleError AUTHENTICATION_ERROR example_fourth_token) =
       [OnFailure AUTHENTICATION_ERROR]"
    using e0 by (simp add: example_fourth_token_facts)
  have f: "fire GetTokenFailure_ev example_fourth_token = Some (OnGetTokenFailure example_fourth_token)"
    by (simp add: example_fourth_token_facts)
  have g: "reachable (OnGetTokenFailure example_fourth_token)"
    using reachable_step[OF example_fourth_token_facts(1) f] .
  from t4 example_fourth_token_facts(1) f
  have h0: "retry (OnGetTokenFailure example_fourth_token) = retry example_fourth_token + 1"
    by blast
  then have h: "retry (OnGetTokenFailure example_fourth_token) = kMaxAttempts"
    by (simp add: example_fourth_token_facts kMaxAttempts_def)
  from t4 example_fourth_token_facts(1) f h
  have i: "state (OnGetTokenFailure example_fourth_token) = ERROR"
    "quiet (OnGetTokenFailure example_fourth_token)"
    by blast+
  note t5 = at_most_kMaxAttempts[of "OnGetTokenFailure example_fourth_token" _ _ _ _ AUTHENTICATION_ERROR]
  from t5 g have k: "posts (OnGetTokenFailure example_fourth_token) \<le> kMaxAttempts"
    "token_requests (OnGetTokenFailure example_fourth_token) \<le> kMaxAttempts"
    by blast+
  have f5: "fire (URLFetchComplete_ev True 500) example_uploading = Some example_after_500"
    using example_uploading_fetcher by (simp add: example_after_500_def)
  have n5: "\<not> (True \<and> (500::int) = 200)" by simp
  note t6 = at_most_kMaxAttempts[of example_uploading "URLFetchComplete_ev True 500"
      example_after_500 True 500 SERVER_ERROR]
  from t6 example_uploading_reachable f5 n5
  have l0: "retry example_after_500 = retry example_uploading + 1" by blast
  then have l: "retry example_after_500 = 1" by (simp add: example_uploading_facts)
  then have l': "retry example_after_500 < kMaxAttempts" by (simp add: kMaxAttempts_def)
  from t6 example_uploading_reachable f5 n5 l'
  have m: "state example_after_500 \<noteq> ERROR" "length (task_runner example_after_500) = 1"
    by blast+
  have o: "retry (example_idle\<lparr>retry := 2147483647\<rparr>) = 2147483647" by simp
  note t7 = at_most_kMaxAttempts[of "example_idle\<lparr>retry := 2147483647\<rparr>" _ _ _ _ SERVER_ERROR]
  from t7 o
  have p: "retry (HandleError SERVER_ERROR (example_idle\<lparr>retry := 2147483647\<rparr>)) = - 2147483648"
    and q0: "delegate_calls (HandleError SERVER_ERROR (example_idle\<lparr>retry := 2147483647\<rparr>)) =
      delegate_calls (example_idle\<lparr>retry := 2147483647\<rparr>)"
    by blast+
  have q: "delegate_calls (HandleError SERVER_ERROR (example_idle\<lparr>retry := 2147483647\<rparr>)) = []"
    using q0 dc by simp
  show ?thesis
    using example_idle_reachable s a' rg b c d e example_fourth_token_facts(1) f g h i k
      example_uploading_reachable f5 l l' m o p q
    by blast
qed

subsection \<open>Retry after an error other than authentication\<close>

text \<open>
  C3, as the code has it. The claim says that state ACQUIRING_TOKEN is not set on this
  path; the code sets it, as this run shows: an HTTP 500 on the first upload, attempts
  remaining, and the job is in state ACQUIRING_TOKEN afterwards.
\<close>

theorem non_auth_retry_sets_acquiring_token:
  "reachable example_uploading \<and> state example_uploading = UPLOADING \<and>
   fire (URLFetchComplete_ev True 500) example_uploading = Some example_after_500 \<and>
   example_after_500 = HandleError SERVER_ERROR example_uploading \<and>
   retry example_after_500 < kMaxAttempts \<and>
   state example_after_500 = ACQUIRING_TOKEN"
  using example_uploading_reachable example_uploading_fetcher example_uploading_facts(1,2)
  by (simp add: example_after_500_def OnURLFetchComplete_def HandleError_def int32_increment_def Let_def
      HTTP_OK_def HTTP_UNAUTHORIZED_def kMaxAttempts_def)

text \<open>
  C3, amended. When the outstanding fetcher completes with a transport failure or with a
  response code other than 200 and 401, and attempts remain, the job sets state
  ACQUIRING_TOKEN without calling the token service, and posts one delayed
  \<open>StartUpload\<close> with the retry delay. Token, boundary and body are kept. When that
  task runs, \<open>SetUpMultipart\<close> generates no boundary and assembles nothing, no token is
  requested, and the fetcher started is the same request as the one that failed: same
  URL, content type, body and authorization header.
\<close>

theorem non_auth_retry_reuses_token_and_body:
  assumes "reachable j"
    and "fire (URLFetchComplete_ev status_is_success response_code) j = Some j1"
    and "\<not> status_is_success \<or> (response_code \<noteq> 200 \<and> response_code \<noteq> 401)"
    and "retry j + 1 < kMaxAttempts"
  shows "state j1 = ACQUIRING_TOKEN \<and>
         task_runner j1 = [(StartUpload_task, g_retry_delay_ms j)] \<and>
         \<not> access_token_request j1 \<and> upload_fetcher j1 = None \<and>
         token_service_calls j1 = token_service_calls j \<and>
         access_token j1 = access_token j \<and>
         mime_boundary j1 = mime_boundary j \<and> post_data j1 = post_data j \<and>
         post_data j \<noteq> None \<and>
         (\<exists>j2. fire DelayedTask_ev j1 = Some j2 \<and>
            state j2 = UPLOADING \<and>
            upload_fetcher j2 = upload_fetcher j \<and>
            upload_fetcher j2 = Some (request_of j) \<and>
            started_fetchers j2 = started_fetchers j @ [request_of j] \<and>
            boundary_calls j2 = boundary_calls j \<and>
            mime_boundary j2 = mime_boundary j \<and> post_data j2 = post_data j \<and>
            access_token j2 = access_token j \<and>
            token_service_calls j2 = token_service_calls j \<and>
            \<not> access_token_request j2 \<and> task_runner j2 = [])"
proof -
  from assms(2) have f: "upload_fetcher j \<noteq> None"
    and j1: "j1 = OnURLFetchComplete status_is_success response_code j"
    by (auto split: if_splits)
  have inv: "inv_AwaitFetch j" using phase_AwaitFetch[OF assms(1) f] .
  have "\<exists>e. e \<noteq> AUTHENTICATION_ERROR \<and> j1 = HandleError e j"
  proof (cases status_is_success)
    case False
    then have "j1 = HandleError NETWORK_ERROR j"
      unfolding j1 by (simp add: OnURLFetchComplete_def)
    moreover have "NETWORK_ERROR \<noteq> AUTHENTICATION_ERROR" by simp
    ultimately show ?thesis by blast
  next
    case True
    then have "j1 = HandleError SERVER_ERROR j"
      using assms(3) unfolding j1
      by (simp add: OnURLFetchComplete_def HTTP_OK_def HTTP_UNAUTHORIZED_def)
    moreover have "SERVER_ERROR \<noteq> AUTHENTICATION_ERROR" by simp
    ultimately show ?thesis by blast
  qed
  then obtain e where e: "e \<noteq> AUTHENTICATION_ERROR" and h: "j1 = HandleError e j"
    by blast
  have eq: "j1 = j\<lparr>retry := retry j + 1, upload_fetcher := None, state := ACQUIRING_TOKEN,
                   task_runner := [(StartUpload_task, g_retry_delay_ms j)]\<rparr>"
    using e assms(4) inv unfolding h
    by (simp add: HandleError_def int32_increment_small Let_def inv_AwaitFetch_def)
  have m: "mime_boundary j \<noteq> None" "post_data j \<noteq> None" "upload_fetcher j = Some (request_of j)"
    using inv by (simp_all add: inv_AwaitFetch_def assembled_def)
  have x: "fire DelayedTask_ev j1 = Some (StartUpload (j1\<lparr>task_runner := []\<rparr>))"
    by (simp add: eq)
  have y: "StartUpload (j1\<lparr>task_runner := []\<rparr>) =
           j\<lparr>retry := retry j + 1, upload_fetcher := Some (request_of j), state := UPLOADING,
             started_fetchers := started_fetchers j @ [request_of j]\<rparr>"
    using m inv
    by (simp add: eq StartUpload_def SetUpMultipart_def CreateAndStartURLFetcher_def Let_def
        request_of_def inv_AwaitFetch_def)
  have a: "state j1 = ACQUIRING_TOKEN \<and>
         task_runner j1 = [(StartUpload_task, g_retry_delay_ms j)] \<and>
         \<not> access_token_request j1 \<and> upload_fetcher j1 = None \<and>
         token_service_calls j1 = token_service_calls j \<and>
         access_token j1 = access_token j \<and>
         mime_boundary j1 = mime_boundary j \<and> post_data j1 = post_data j \<and>
         post_data j \<noteq> None"
    using inv m by (simp add: eq inv_AwaitFetch_def)
  have b: "\<exists>j2. fire DelayedTask_ev j1 = Some j2 \<and>
            state j2 = UPLOADING \<and>
            upload_fetcher j2 = upload_fetcher j \<and>
            upload_fetcher j2 = Some (request_of j) \<and>
            started_fetchers j2 = started_fetchers j @ [request_of j] \<and>
            boundary_calls j2 = boundary_calls j \<and>
            mime_boundary j2 = mime_boundary j \<and> post_data j2 = post_data j \<and>
            access_token j2 = access_token j \<and>
            token_service_calls j2 = token_service_calls j \<and>
            \<not> access_token_request j2 \<and> task_runner j2 = []"
    unfolding x y using inv m by (simp add: inv_AwaitFetch_def)
  show ?thesis using a b by blast
qed

theorem non_auth_retry_reuses_token_and_body_witness:
  "reachable example_uploading \<and>
   fire (URLFetchComplete_ev True 500) example_uploading = Some example_after_500 \<and>
   retry example_uploading + 1 < kMaxAttempts \<and>
   state example_after_500 = ACQUIRING_TOKEN \<and>
   task_runner example_after_500 = [(StartUpload_task, 25000)] \<and>
   token_service_calls example_after_500 = [StartRequest ''device''] \<and>
   (\<exists>j2. fire DelayedTask_ev example_after_500 = Some j2 \<and> state j2 = UPLOADING \<and>
      upload_fetcher j2 = upload_fetcher example_uploading \<and>
      token_service_calls j2 = [StartRequest ''device''])"
proof -
  have f: "fire (URLFetchComplete_ev True 500) example_uploading = Some example_after_500"
    using example_uploading_fetcher by (simp add: example_after_500_def)
  have c: "\<not> True \<or> ((500::int) \<noteq> 200 \<and> (500::int) \<noteq> 401)" by simp
  have r: "retry example_uploading + 1 < kMaxAttempts"
    by (simp add: example_uploading_facts kMaxAttempts_def)
  note t = non_auth_retry_reuses_token_and_body[OF example_uploading_reachable f c r]
  from t have a: "state example_after_500 = ACQUIRING_TOKEN"
    and b: "task_runner example_after_500 = [(StartUpload_task, g_retry_delay_ms example_uploading)]"
    and d: "token_service_calls example_after_500 = token_service_calls example_uploading"
    and e: "\<exists>j2. fire DelayedTask_ev example_after_500 = Some j2 \<and> state j2 = UPLOADING \<and>
      upload_fetcher j2 = upload_fetcher example_uploading \<and>
      token_service_calls j2 = token_service_calls example_uploading"
    by blast+
  show ?thesis
    using example_uploading_reachable f r a b d e unfolding example_uploading_facts by blast
qed

subsection \<open>Duplicate segment names\<close>

text \<open>
  C4. When two segments share a name, \<open>SetUpMultipart\<close> returns false having changed
  nothing but the state: no boundary is generated and no body is written. \<open>StartUpload\<close>
  then leaves the job in state ERROR and changes nothing else. In an execution this
  happens at the token callback: the job goes to ERROR with the retry counter as it was,
  nothing scheduled or outstanding, no fetcher started and no delegate call.
\<close>

theorem duplicate_names_fail_assembly:
  assumes "\<not> distinct (map GetName (data_segments j))"
  shows "(mime_boundary j = None \<or> post_data j = None \<longrightarrow>
            SetUpMultipart j = (False, j\<lparr>state := PREPARING_CONTENT\<rparr>) \<and>
            StartUpload j = j\<lparr>state := ERROR\<rparr>) \<and>
         (reachable j \<and> fire (GetTokenSuccess_ev token) j = Some j' \<longrightarrow>
            j' = j\<lparr>access_token_request := False, access_token := token, state := ERROR\<rparr> \<and>
            mime_boundary j' = None \<and> post_data j' = None \<and> boundary_calls j' = 0 \<and>
            retry j' = retry j \<and> quiet j' \<and> delegate_calls j' = [] \<and>
            started_fetchers j' = started_fetchers j \<and> data_segments j' = data_segments j)"
proof -
  have a: "SetUpMultipart j = (False, j\<lparr>state := PREPARING_CONTENT\<rparr>) \<and>
           StartUpload j = j\<lparr>state := ERROR\<rparr>"
    if "mime_boundary j = None \<or> post_data j = None"
    using SetUpMultipart_duplicate[OF assms that] by (simp add: StartUpload_def)
  have b: "j' = j\<lparr>access_token_request := False, access_token := token, state := ERROR\<rparr> \<and>
            mime_boundary j' = None \<and> post_data j' = None \<and> boundary_calls j' = 0 \<and>
            retry j' = retry j \<and> quiet j' \<and> delegate_calls j' = [] \<and>
            started_fetchers j' = started_fetchers j \<and> data_segments j' = data_segments j"
    if h: "reachable j \<and> fire (GetTokenSuccess_ev token) j = Some j'"
  proof -
    from h have req: "access_token_request j" and j': "j' = OnGetTokenSuccess token j"
      by (auto split: if_splits)
    have inv: "inv_AwaitToken j" using h req phase_AwaitToken by blast
    have ne: "data_segments j \<noteq> []" using assms by auto
    with inv have un: "unassembled j" by (auto simp: inv_AwaitToken_def assembled_def)
    let ?k = "j\<lparr>access_token_request := False, access_token := token\<rparr>"
    have "SetUpMultipart ?k = (False, ?k\<lparr>state := PREPARING_CONTENT\<rparr>)"
      using assms un by (intro SetUpMultipart_duplicate) (simp_all add: unassembled_def)
    then have "j' = ?k\<lparr>state := ERROR\<rparr>"
      by (simp add: j' OnGetTokenSuccess_def StartUpload_def)
    then show ?thesis using inv un by (simp add: inv_AwaitToken_def unassembled_def quiet_def)
  qed
  show ?thesis using a b by blast
qed

theorem duplicate_names_fail_assembly_witness:
  "\<not> distinct (map GetName (data_segments (Start example_dup_idle))) \<and>
   mime_boundary (Start example_dup_idle) = None \<and>
   StartUpload (Start example_dup_idle) = (Start example_dup_idle)\<lparr>state := ERROR\<rparr> \<and>
   reachable (Start example_dup_idle) \<and>
   fire (GetTokenSuccess_ev ''T'') (Start example_dup_idle) =
     Some (OnGetTokenSuccess ''T'' (Start example_dup_idle)) \<and>
   state (OnGetTokenSuccess ''T'' (Start example_dup_idle)) = ERROR \<and>
   post_data (OnGetTokenSuccess ''T'' (Start example_dup_idle)) = None \<and>
   delegate_calls (OnGetTokenSuccess ''T'' (Start example_dup_idle)) = [] \<and>
   retry (OnGetTokenSuccess ''T'' (Start example_dup_idle)) = 0"
proof -
  have d: "\<not> distinct (map GetName (data_segments (Start example_dup_idle)))"
    and m: "mime_boundary (Start example_dup_idle) = None"
    and r: "retry (Start example_dup_idle) = 0"
    and f: "fire (GetTokenSuccess_ev ''T'') (Start example_dup_idle) =
     Some (OnGetTokenSuccess ''T'' (Start example_dup_idle))"
    by (simp_all add: example_dup_idle_def example_url_def UploadJobImpl_def AddDataSegment_def
        Start_def RequestAccessToken_def)
  note t = duplicate_names_fail_assembly[OF d, of "''T''" "OnGetTokenSuccess ''T'' (Start example_dup_idle)"]
  from t m have a: "StartUpload (Start example_dup_idle) = (Start example_dup_idle)\<lparr>state := ERROR\<rparr>"
    by blast
  from t f example_dup_reachable
  have b: "OnGetTokenSuccess ''T'' (Start example_dup_idle) =
      (Start example_dup_idle)\<lparr>access_token_request := False, access_token := ''T'', state := ERROR\<rparr>"
    and c: "post_data (OnGetTokenSuccess ''T'' (Start example_dup_idle)) = None"
      "delegate_calls (OnGetTokenSuccess ''T'' (Start example_dup_idle)) = []"
      "retry (OnGetTokenSuccess ''T'' (Start example_dup_idle)) = retry (Start example_dup_idle)"
    by blast+
  have e: "state (OnGetTokenSuccess ''T'' (Start example_dup_idle)) = ERROR"
    by (subst b) simp
  show ?thesis using d m a example_dup_reachable f e c r by simp
qed

subsection \<open>Retry after an authentication error\<close>



subsection \<open>Completion of the fetcher\<close>

text \<open>
  C6. When the outstanding fetcher completes, the job reaches SUCCESS exactly when the
  request status is a success and the response code is 200; then the token is cleared, the
  body discarded, and \<open>OnSuccess\<close> is the one call the delegate has received. A
  response code other than 200 and 401 is handled as \<open>SERVER_ERROR\<close>.
\<close>

theorem success_iff_http_200:
  assumes "reachable j" and "fire (URLFetchComplete_ev status_is_success response_code) j = Some j'"
  shows "(state j' = SUCCESS \<longleftrightarrow> status_is_success \<and> response_code = 200) \<and>
         (status_is_success \<and> response_code = 200 \<longrightarrow>
            access_token j' = [] \<and> post_data j' = None \<and> upload_fetcher j' = None \<and>
            delegate_calls j' = [OnSuccess] \<and>
            j' = j\<lparr>upload_fetcher := None, access_token := [], post_data := None,
                    state := SUCCESS, delegate_calls := delegate_calls j @ [OnSuccess]\<rparr>) \<and>
         (status_is_success \<and> response_code \<noteq> 200 \<and> response_code \<noteq> 401 \<longrightarrow>
            j' = HandleError SERVER_ERROR j \<and> OnSuccess \<notin> set (delegate_calls j') \<and>
            (retry j + 1 \<ge> kMaxAttempts \<longrightarrow> delegate_calls j' = [OnFailure SERVER_ERROR]))"
proof -
  from assms(2) have f: "upload_fetcher j \<noteq> None"
    and j': "j' = OnURLFetchComplete status_is_success response_code j"
    by (auto split: if_splits)
  have inv: "inv_AwaitFetch j"
    using reachable_inv[OF assms(1)] f phase_pending[of j] by (auto simp: job_inv_def quiet_def)
  then have st: "state j = UPLOADING" and dc: "delegate_calls j = []"
    and rt: "retry j < kMaxAttempts"
    by (simp_all add: inv_AwaitFetch_def)
  have he: "state (HandleError e j) \<noteq> SUCCESS" for e
    using st by (simp add: HandleError_def int32_increment_def Let_def)
  have a: "state j' = SUCCESS \<longleftrightarrow> status_is_success \<and> response_code = 200"
    unfolding j' using he by (simp add: OnURLFetchComplete_def HTTP_OK_def)
  have b: "status_is_success \<and> response_code = 200 \<longrightarrow>
            access_token j' = [] \<and> post_data j' = None \<and> upload_fetcher j' = None \<and>
            delegate_calls j' = [OnSuccess] \<and>
            j' = j\<lparr>upload_fetcher := None, access_token := [], post_data := None,
                    state := SUCCESS, delegate_calls := delegate_calls j @ [OnSuccess]\<rparr>"
    unfolding j' using dc by (simp add: OnURLFetchComplete_def HTTP_OK_def)
  have c: "status_is_success \<and> response_code \<noteq> 200 \<and> response_code \<noteq> 401 \<longrightarrow>
            j' = HandleError SERVER_ERROR j \<and> OnSuccess \<notin> set (delegate_calls j') \<and>
            (retry j + 1 \<ge> kMaxAttempts \<longrightarrow> delegate_calls j' = [OnFailure SERVER_ERROR])"
    unfolding j' using dc rt
    by (simp add: OnURLFetchComplete_def HTTP_OK_def HTTP_UNAUTHORIZED_def HandleError_def
        int32_increment_small Let_def)
  show ?thesis using a b c by blast
qed

theorem success_iff_http_200_witness:
  "reachable example_uploading \<and>
   fire (URLFetchComplete_ev True 200) example_uploading = Some example_done \<and>
   state example_done = SUCCESS \<and> delegate_calls example_done = [OnSuccess] \<and>
   post_data example_done = None \<and> access_token example_done = [] \<and>
   fire (URLFetchComplete_ev True 204) example_uploading =
     Some (HandleError SERVER_ERROR example_uploading) \<and>
   state (HandleError SERVER_ERROR example_uploading) \<noteq> SUCCESS \<and>
   reachable example_fourth_upload \<and>
   fire (URLFetchComplete_ev True 500) example_fourth_upload =
     Some (HandleError SERVER_ERROR example_fourth_upload) \<and>
   retry example_fourth_upload + 1 \<ge> kMaxAttempts \<and>
   delegate_calls (HandleError SERVER_ERROR example_fourth_upload) = [OnFailure SERVER_ERROR]"
proof -
  have f1: "fire (URLFetchComplete_ev True 200) example_uploading = Some example_done"
    using example_uploading_fetcher by (simp add: example_done_def)
  have f2: "fire (URLFetchComplete_ev True 204) example_uploading =
     Some (HandleError SERVER_ERROR example_uploading)"
    using example_uploading_fetcher
    by (simp add: OnURLFetchComplete_def HTTP_OK_def HTTP_UNAUTHORIZED_def)
  have f3: "fire (URLFetchComplete_ev True 500) example_fourth_upload =
     Some (HandleError SERVER_ERROR example_fourth_upload)"
    using example_fourth_upload_facts(2)
    by (simp add: OnURLFetchComplete_def HTTP_OK_def HTTP_UNAUTHORIZED_def)
  have r: "retry example_fourth_upload + 1 \<ge> kMaxAttempts"
    by (simp add: example_fourth_upload_facts kMaxAttempts_def)
  note t1 = success_iff_http_200[OF example_uploading_reachable f1]
  note t2 = success_iff_http_200[OF example_uploading_reachable f2]
  note t3 = success_iff_http_200[OF example_fourth_upload_facts(1) f3]
  from t1 have a: "state example_done = SUCCESS" "delegate_calls example_done = [OnSuccess]"
    "post_data example_done = None" "access_token example_done = []"
    by simp_all
  from t2 have b: "state (HandleError SERVER_ERROR example_uploading) \<noteq> SUCCESS"
    by simp
  from t3 r have c: "delegate_calls (HandleError SERVER_ERROR example_fourth_upload) =
       [OnFailure SERVER_ERROR]"
    by simp
  show ?thesis
    using example_uploading_reachable f1 f2 f3 a b c r example_fourth_upload_facts(1) by blast
qed

subsection \<open>Assembly happens once\<close>

text \<open>
  C7, as the code has it. The claim says that assembly runs exactly once in every job and
  that the body is fixed for the rest of the job's life. In the example job the body is
  assembled at the token callback and discarded when the upload succeeds: the job lives
  on in state SUCCESS without a body. And a job whose four token requests all fail ends
  in ERROR without the boundary generator ever having been called.
\<close>

theorem body_discarded_at_terminal_state:
  "reachable example_uploading \<and>
   mime_boundary example_uploading = Some ''B'' \<and>
   post_data example_uploading = Some (assemble ''B''
      [\<lparr>GetName = ''file1'', GetFilename = ''a.txt'', GetData = ''hello'',
         GetHeaderEntries = map_insert ''Content-Type'' ''text/plain'' map_empty\<rparr>]) \<and>
   fire (URLFetchComplete_ev True 200) example_uploading = Some example_done \<and>
   state example_done = SUCCESS \<and> post_data example_done = None \<and>
   map_option state
     (exec [Start_ev, GetTokenFailure_ev, DelayedTask_ev, GetTokenFailure_ev, DelayedTask_ev,
            GetTokenFailure_ev, DelayedTask_ev, GetTokenFailure_ev] example_idle) = Some ERROR \<and>
   map_option boundary_calls
     (exec [Start_ev, GetTokenFailure_ev, DelayedTask_ev, GetTokenFailure_ev, DelayedTask_ev,
            GetTokenFailure_ev, DelayedTask_ev, GetTokenFailure_ev] example_idle) = Some 0"
proof -
  have a: "mime_boundary example_uploading = Some ''B''"
    by (simp add: example_uploading_def example_idle_def example_url_def op_defs)
  have f: "fire (URLFetchComplete_ev True 200) example_uploading = Some example_done"
    using example_uploading_fetcher by (simp add: example_done_def)
  have p: "post_data example_done = None"
    by (simp add: example_done_def OnURLFetchComplete_def HTTP_OK_def)
  have x: "map_option state
     (exec [Start_ev, GetTokenFailure_ev, DelayedTask_ev, GetTokenFailure_ev, DelayedTask_ev,
            GetTokenFailure_ev, DelayedTask_ev, GetTokenFailure_ev] example_idle) = Some ERROR"
    "map_option boundary_calls
     (exec [Start_ev, GetTokenFailure_ev, DelayedTask_ev, GetTokenFailure_ev, DelayedTask_ev,
            GetTokenFailure_ev, DelayedTask_ev, GetTokenFailure_ev] example_idle) = Some 0"
    by (simp_all add: example_idle_def example_url_def op_defs)
  show ?thesis
    using example_uploading_reachable a example_uploading_facts(8) f example_done_state p x
    by blast
qed

text \<open>
  C7, amended. In every job that an execution reaches, the boundary generator has been
  called at most once, and a boundary is set exactly when it has been called. The segment
  list and the pair of boundary and body are never both populated. A body is held exactly
  when a boundary is set and the state is not terminal: in SUCCESS and in ERROR no body is
  held. Once a boundary is set, every further sequence of events keeps the boundary, keeps
  the segment list empty and calls the generator no more; it leaves the body as it is
  when it ends in a state that is not terminal, and without a body when it ends in a
  terminal state; every fetcher started in between carries that body and that boundary.
  While boundary and body are set, \<open>SetUpMultipart\<close> changes the state only and returns
  true.
\<close>

theorem assembly_at_most_once:
  assumes "reachable j"
  shows "boundary_calls j \<le> 1 \<and> (mime_boundary j = None \<longleftrightarrow> boundary_calls j = 0) \<and>
         (data_segments j \<noteq> [] \<longrightarrow> mime_boundary j = None \<and> post_data j = None) \<and>
         (post_data j \<noteq> None \<longrightarrow> mime_boundary j \<noteq> None) \<and>
         (mime_boundary j \<noteq> None \<and> post_data j = None \<longrightarrow> terminal (state j)) \<and>
         (terminal (state j) \<longrightarrow> post_data j = None) \<and>
         (mime_boundary j \<noteq> None \<and> post_data j \<noteq> None \<longrightarrow>
            SetUpMultipart j = (True, j\<lparr>state := PREPARING_CONTENT\<rparr>)) \<and>
         (mime_boundary j \<noteq> None \<and> exec es j = Some j' \<longrightarrow>
            mime_boundary j' = mime_boundary j \<and> data_segments j' = [] \<and>
            boundary_calls j' = boundary_calls j \<and>
            (post_data j' = post_data j \<or> post_data j' = None \<and> terminal (state j')) \<and>
            (terminal (state j') \<longrightarrow> post_data j' = None) \<and>
            (\<not> terminal (state j') \<longrightarrow> post_data j' = post_data j \<and> post_data j' \<noteq> None) \<and>
            (\<exists>fs. started_fetchers j' = started_fetchers j @ fs \<and>
                  (fs \<noteq> [] \<longrightarrow> post_data j \<noteq> None) \<and> (\<forall>f \<in> set fs. carries j f)))"
proof -
  note b = reachable_body[OF assms]
  have d: "terminal (state j) \<longrightarrow> post_data j = None"
    using terminal_Done[OF assms] by (auto simp: inv_Done_def)
  have a: "boundary_calls j \<le> 1 \<and> (mime_boundary j = None \<longleftrightarrow> boundary_calls j = 0) \<and>
         (data_segments j \<noteq> [] \<longrightarrow> mime_boundary j = None \<and> post_data j = None) \<and>
         (post_data j \<noteq> None \<longrightarrow> mime_boundary j \<noteq> None) \<and>
         (mime_boundary j \<noteq> None \<and> post_data j = None \<longrightarrow> terminal (state j))"
    using b by (auto simp: unassembled_def assembled_def)
  have c: "mime_boundary j \<noteq> None \<and> post_data j \<noteq> None \<longrightarrow>
            SetUpMultipart j = (True, j\<lparr>state := PREPARING_CONTENT\<rparr>)"
    by (simp add: SetUpMultipart_def Let_def)
  have e: "mime_boundary j' = mime_boundary j \<and> data_segments j' = [] \<and>
            boundary_calls j' = boundary_calls j \<and>
            (post_data j' = post_data j \<or> post_data j' = None \<and> terminal (state j')) \<and>
            (terminal (state j') \<longrightarrow> post_data j' = None) \<and>
            (\<not> terminal (state j') \<longrightarrow> post_data j' = post_data j \<and> post_data j' \<noteq> None) \<and>
            (\<exists>fs. started_fetchers j' = started_fetchers j @ fs \<and>
                  (fs \<noteq> [] \<longrightarrow> post_data j \<noteq> None) \<and> (\<forall>f \<in> set fs. carries j f))"
    if h: "mime_boundary j \<noteq> None \<and> exec es j = Some j'"
  proof -
    from h have m: "mime_boundary j \<noteq> None" and x: "exec es j = Some j'" by simp_all
    note ea = exec_assembled[OF assms m x]
    have r': "reachable j'" using reachable_exec[OF assms x] .
    have t': "terminal (state j') \<longrightarrow> post_data j' = None"
      using terminal_Done[OF r'] by (auto simp: inv_Done_def)
    have m': "mime_boundary j' \<noteq> None" using ea m by simp
    have n': "\<not> terminal (state j') \<longrightarrow> post_data j' \<noteq> None"
      using reachable_body[OF r'] m' by (auto simp: unassembled_def)
    show ?thesis using ea t' n' by blast
  qed
  show ?thesis using a c d e by blast
qed

theorem assembly_at_most_once_witness:
  "reachable example_uploading \<and> mime_boundary example_uploading \<noteq> None \<and>
   post_data example_uploading \<noteq> None \<and>
   exec [URLFetchComplete_ev True 500, DelayedTask_ev] example_uploading =
     Some (StartUpload (example_after_500\<lparr>task_runner := []\<rparr>)) \<and>
   \<not> terminal (state (StartUpload (example_after_500\<lparr>task_runner := []\<rparr>))) \<and>
   mime_boundary (StartUpload (example_after_500\<lparr>task_runner := []\<rparr>)) = Some ''B'' \<and>
   boundary_calls (StartUpload (example_after_500\<lparr>task_runner := []\<rparr>)) = 1 \<and>
   data_segments (StartUpload (example_after_500\<lparr>task_runner := []\<rparr>)) = [] \<and>
   post_data (StartUpload (example_after_500\<lparr>task_runner := []\<rparr>)) =
     post_data example_uploading \<and>
   boundary_calls example_uploading \<le> 1 \<and>
   SetUpMultipart example_uploading = (True, example_uploading\<lparr>state := PREPARING_CONTENT\<rparr>) \<and>
   reachable example_idle \<and> data_segments example_idle \<noteq> [] \<and>
   mime_boundary example_idle = None \<and> post_data example_idle = None \<and>
   exec [URLFetchComplete_ev True 200] example_uploading = Some example_done \<and>
   reachable example_done \<and> mime_boundary example_done \<noteq> None \<and>
   terminal (state example_done) \<and> state example_done = SUCCESS \<and>
   post_data example_done = None \<and>
   reachable example_fourth_upload \<and> mime_boundary example_fourth_upload \<noteq> None \<and>
   post_data example_fourth_upload \<noteq> None \<and>
   exec [URLFetchComplete_ev True 500] example_fourth_upload =
     Some (HandleError SERVER_ERROR example_fourth_upload) \<and>
   terminal (state (HandleError SERVER_ERROR example_fourth_upload)) \<and>
   state (HandleError SERVER_ERROR example_fourth_upload) = ERROR \<and>
   post_data (HandleError SERVER_ERROR example_fourth_upload) = None"
proof -
  have m: "mime_boundary example_uploading = Some ''B''" "boundary_calls example_uploading = 1"
    by (simp_all add: example_uploading_def example_idle_def example_url_def op_defs)
  have m': "mime_boundary example_uploading \<noteq> None" using m by simp
  have p': "post_data example_uploading \<noteq> None" by (simp add: example_uploading_facts)
  have t: "task_runner example_after_500 = [(StartUpload_task, 25000)]"
    using example_uploading_facts(2,4,5)
    by (simp add: example_after_500_def OnURLFetchComplete_def HandleError_def int32_increment_def Let_def
        HTTP_OK_def HTTP_UNAUTHORIZED_def kMaxAttempts_def)
  have x: "exec [URLFetchComplete_ev True 500, DelayedTask_ev] example_uploading =
     Some (StartUpload (example_after_500\<lparr>task_runner := []\<rparr>))"
    using example_uploading_fetcher t by (simp add: example_after_500_def[symmetric])
  have nt: "\<not> terminal (state (StartUpload (example_after_500\<lparr>task_runner := []\<rparr>)))"
    by (simp add: example_after_500_def example_uploading_def example_idle_def example_url_def
        op_defs terminal_def)
  note th = assembly_at_most_once[OF example_uploading_reachable,
      of "[URLFetchComplete_ev True 500, DelayedTask_ev]"
         "StartUpload (example_after_500\<lparr>task_runner := []\<rparr>)"]
  from th m' x
  have a: "mime_boundary (StartUpload (example_after_500\<lparr>task_runner := []\<rparr>)) =
             mime_boundary example_uploading"
    and b: "boundary_calls (StartUpload (example_after_500\<lparr>task_runner := []\<rparr>)) =
             boundary_calls example_uploading"
    and c: "data_segments (StartUpload (example_after_500\<lparr>task_runner := []\<rparr>)) = []"
    and d: "boundary_calls example_uploading \<le> 1"
    by blast+
  from th m' x nt
  have c': "post_data (StartUpload (example_after_500\<lparr>task_runner := []\<rparr>)) =
     post_data example_uploading"
    by blast
  from th m' p'
  have e: "SetUpMultipart example_uploading = (True, example_uploading\<lparr>state := PREPARING_CONTENT\<rparr>)"
    by blast
  have s: "data_segments example_idle \<noteq> []"
    by (simp add: example_idle_def example_url_def UploadJobImpl_def AddDataSegment_def)
  note ti = assembly_at_most_once[OF example_idle_reachable, of "[]" example_idle]
  from ti s have f: "mime_boundary example_idle = None" "post_data example_idle = None"
    by blast+
  have xd: "exec [URLFetchComplete_ev True 200] example_uploading = Some example_done"
    using example_uploading_fetcher by (simp add: example_done_def)
  have sd: "state example_done = SUCCESS"
    by (simp add: example_done_def OnURLFetchComplete_def HTTP_OK_def)
  then have tdn: "terminal (state example_done)" by (simp add: terminal_def)
  note td = assembly_at_most_once[OF example_uploading_reachable,
      of "[URLFetchComplete_ev True 200]" example_done]
  from td m' xd tdn have pd: "post_data example_done = None"
    and md0: "mime_boundary example_done = mime_boundary example_uploading"
    by blast+
  have md: "mime_boundary example_done \<noteq> None" using md0 m' by simp
  have m4: "mime_boundary example_fourth_upload \<noteq> None"
    "post_data example_fourth_upload \<noteq> None"
    by (simp_all add: example_fourth_upload_def example_idle_def example_url_def op_defs)
  have x4: "exec [URLFetchComplete_ev True 500] example_fourth_upload =
     Some (HandleError SERVER_ERROR example_fourth_upload)"
    using example_fourth_upload_facts(2)
    by (simp add: OnURLFetchComplete_def HTTP_OK_def HTTP_UNAUTHORIZED_def)
  have s4: "state (HandleError SERVER_ERROR example_fourth_upload) = ERROR"
    using example_fourth_upload_facts(3)
    by (simp add: HandleError_def int32_increment_def Let_def kMaxAttempts_def)
  then have t4: "terminal (state (HandleError SERVER_ERROR example_fourth_upload))"
    by (simp add: terminal_def)
  note tf = assembly_at_most_once[OF example_fourth_upload_facts(1),
      of "[URLFetchComplete_ev True 500]" "HandleError SERVER_ERROR example_fourth_upload"]
  from tf m4(1) x4 t4 have p4: "post_data (HandleError SERVER_ERROR example_fourth_upload) = None"
    by blast
  show ?thesis
    using example_uploading_reachable m' p' x nt a b c c' d e example_idle_reachable s f
      xd example_done_reachable md tdn sd pd example_fourth_upload_facts(1) m4 x4 t4 s4 p4
    unfolding m by blast
qed

subsection \<open>Calls outside IDLE\<close>

text \<open>
  C8. In every state other than IDLE, \<open>AddDataSegment\<close> and \<open>Start\<close> return the
  job as it was: state, segment list and outstanding upload are untouched. A job that an
  execution has brought to SUCCESS or ERROR stays there under every further sequence of
  events: no state change, no token request, no fetcher, no delegate call, nothing left
  outstanding; it cannot be restarted.
\<close>

theorem no_restart_outside_idle:
  "(state j \<noteq> IDLE \<longrightarrow> AddDataSegment name filename header_entries data j = j \<and> Start j = j) \<and>
   (reachable j \<and> terminal (state j) \<and> exec es j = Some j' \<longrightarrow>
      state j' = state j \<and> retry j' = retry j \<and> data_segments j' = data_segments j \<and>
      token_service_calls j' = token_service_calls j \<and>
      started_fetchers j' = started_fetchers j \<and> delegate_calls j' = delegate_calls j \<and>
      quiet j')"
proof -
  have a: "state j \<noteq> IDLE \<longrightarrow> AddDataSegment name filename header_entries data j = j \<and> Start j = j"
    by (simp add: not_idle_noop)
  have b: "state j' = state j \<and> retry j' = retry j \<and> data_segments j' = data_segments j \<and>
      token_service_calls j' = token_service_calls j \<and>
      started_fetchers j' = started_fetchers j \<and> delegate_calls j' = delegate_calls j \<and>
      quiet j'"
    if h: "reachable j \<and> terminal (state j) \<and> exec es j = Some j'"
  proof -
    from h have r: "reachable j" and t: "terminal (state j)" and x: "exec es j = Some j'" by auto
    from terminal_exec[OF r t x] obtain d where j': "j' = j\<lparr>g_retry_delay_ms := d\<rparr>" by blast
    have "quiet j" using terminal_Done[OF r t] by (simp add: inv_Done_def)
    then show ?thesis by (simp add: j' quiet_def)
  qed
  show ?thesis using a b by blast
qed

theorem no_restart_outside_idle_witness:
  "state example_done \<noteq> IDLE \<and>
   AddDataSegment ''file2'' [] map_empty ''more'' example_done = example_done \<and>
   Start example_done = example_done \<and>
   reachable example_done \<and> terminal (state example_done) \<and>
   exec [Start_ev, AddDataSegment_ev ''file2'' [] map_empty ''more'', Start_ev] example_done = Some example_done \<and>
   state example_done = SUCCESS \<and> quiet example_done"
proof -
  have st: "state example_done \<noteq> IDLE" "terminal (state example_done)"
    by (simp_all add: example_done_state terminal_def)
  have x: "exec [Start_ev, AddDataSegment_ev ''file2'' [] map_empty ''more'', Start_ev] example_done = Some example_done"
    using st(1) by (simp add: not_idle_noop)
  show ?thesis
    using no_restart_outside_idle[of example_done "''file2''" "[]" map_empty "''more''"
        "[Start_ev, AddDataSegment_ev ''file2'' [] map_empty ''more'', Start_ev]" example_done]
      st x example_done_reachable example_done_state
    by simp
qed

subsection \<open>Delegate callbacks and terminal states\<close>

text \<open>
  C9. The delegate's calls are recorded over the whole life of the job, and an execution
  delivers a callback only for a request, fetcher or task that is outstanding. In every
  job that an execution reaches, the record holds at most one call, so \<open>OnSuccess\<close> and
  \<open>OnFailure\<close> are each invoked at most once. An event adds a call only when it takes
  the job from a state that is not terminal into SUCCESS or ERROR. Once the state is
  SUCCESS or ERROR, every further sequence of events leaves the state, the record of
  delegate calls, and the absence of outstanding work as they are.
\<close>

theorem delegate_called_at_terminal_transition_only:
  assumes "reachable j" and "fire e j = Some j'"
  shows "length (delegate_calls j) \<le> 1 \<and> length (delegate_calls j') \<le> 1 \<and>
         length (filter (\<lambda>c. c = OnSuccess) (delegate_calls j')) \<le> 1 \<and>
         length (filter (\<lambda>c. c \<noteq> OnSuccess) (delegate_calls j')) \<le> 1 \<and>
         (delegate_calls j' = delegate_calls j \<or>
          (\<exists>c. delegate_calls j = [] \<and> delegate_calls j' = [c] \<and>
               \<not> terminal (state j) \<and> terminal (state j'))) \<and>
         (terminal (state j) \<longrightarrow>
            state j' = state j \<and> delegate_calls j' = delegate_calls j \<and> quiet j') \<and>
         (terminal (state j') \<and> exec es j' = Some j'' \<longrightarrow>
            state j'' = state j' \<and> delegate_calls j'' = delegate_calls j' \<and> quiet j'')"
proof -
  have r': "reachable j'" using assms reachable_step by blast
  have len: "length (delegate_calls j') \<le> 1"
    using reachable_delegate[OF r'] by blast
  have f1: "length (filter (\<lambda>c. c = OnSuccess) (delegate_calls j')) \<le> 1"
    using len le_trans[OF length_filter_le] by blast
  have f2: "length (filter (\<lambda>c. c \<noteq> OnSuccess) (delegate_calls j')) \<le> 1"
    using len le_trans[OF length_filter_le] by blast
  have stay: "state j' = state j \<and> delegate_calls j' = delegate_calls j \<and> quiet j'"
    if t: "terminal (state j)"
  proof -
    from terminal_fire[OF assms(1) t assms(2)] obtain d where "j' = j\<lparr>g_retry_delay_ms := d\<rparr>"
      by blast
    moreover have "quiet j" using terminal_Done[OF assms(1) t] by (simp add: inv_Done_def)
    ultimately show ?thesis by (simp add: quiet_def)
  qed
  have step: "delegate_calls j' = delegate_calls j \<or>
          (\<exists>c. delegate_calls j = [] \<and> delegate_calls j' = [c] \<and>
               \<not> terminal (state j) \<and> terminal (state j'))"
  proof (cases "terminal (state j)")
    case True
    then show ?thesis using stay by blast
  next
    case False
    then have e: "delegate_calls j = []" using reachable_delegate[OF assms(1)] by blast
    show ?thesis
    proof (cases "delegate_calls j'")
      case Nil
      then show ?thesis using e by simp
    next
      case (Cons c cs)
      then have "cs = []" using len by simp
      moreover have "terminal (state j')" using reachable_delegate[OF r'] Cons by auto
      ultimately show ?thesis using e False Cons by blast
    qed
  qed
  have after: "state j'' = state j' \<and> delegate_calls j'' = delegate_calls j' \<and> quiet j''"
    if h: "terminal (state j') \<and> exec es j' = Some j''"
  proof -
    from h have t: "terminal (state j')" and x: "exec es j' = Some j''" by auto
    from terminal_exec[OF r' t x] obtain d where "j'' = j'\<lparr>g_retry_delay_ms := d\<rparr>" by blast
    moreover have "quiet j'" using terminal_Done[OF r' t] by (simp add: inv_Done_def)
    ultimately show ?thesis by (simp add: quiet_def)
  qed
  have len0: "length (delegate_calls j) \<le> 1"
    using reachable_delegate[OF assms(1)] by blast
  show ?thesis using len0 len f1 f2 step stay after by blast
qed

theorem delegate_called_at_terminal_transition_only_witness:
  "reachable example_uploading \<and>
   fire (URLFetchComplete_ev True 200) example_uploading = Some example_done \<and>
   delegate_calls example_uploading = [] \<and> delegate_calls example_done = [OnSuccess] \<and>
   \<not> terminal (state example_uploading) \<and> terminal (state example_done) \<and>
   exec [Start_ev] example_done = Some example_done \<and>
   length (delegate_calls example_done) \<le> 1 \<and>
   reachable example_done \<and> fire Start_ev example_done = Some example_done \<and>
   state example_done = SUCCESS \<and> quiet example_done"
proof -
  have f: "fire (URLFetchComplete_ev True 200) example_uploading = Some example_done"
    using example_uploading_fetcher by (simp add: example_done_def)
  have s: "exec [Start_ev] example_done = Some example_done"
    and s': "fire Start_ev example_done = Some example_done"
    by (simp_all add: not_idle_noop example_done_state)
  have d0: "delegate_calls example_uploading = []"
    by (simp add: example_uploading_def example_idle_def example_url_def op_defs)
  have d1: "delegate_calls example_done = [OnSuccess]"
    using d0 by (simp add: example_done_def OnURLFetchComplete_def HTTP_OK_def)
  have t0: "\<not> terminal (state example_uploading)"
    by (simp add: example_uploading_facts terminal_def)
  have t1: "terminal (state example_done)"
    by (simp add: example_done_state terminal_def)
  note t = delegate_called_at_terminal_transition_only[OF example_uploading_reachable f,
      of "[Start_ev]" example_done]
  from t have l: "length (delegate_calls example_done) \<le> 1" by blast
  note u = delegate_called_at_terminal_transition_only[OF example_done_reachable s',
      of "[Start_ev]" example_done]
  from u t1 have q: "quiet example_done" by blast
  show ?thesis
    using example_uploading_reachable f d0 d1 t0 t1 s l example_done_reachable s'
      example_done_state q
    by blast
qed

subsection \<open>Header order and determinism\<close>

text \<open>
  C10. The entries of an ordered map are its lookups, listed in strictly ascending order
  of the field names: the keys of the entry list are the sorted list of the domain of the
  lookup, an entry is in the list exactly when the lookup finds it, insertion updates the
  lookup at one key, two insertions at different keys commute, and a map is determined
  by its lookups. The bytes appended for a segment hold the header lines of the entries
  in that order. For a job without a body whose segment names are distinct,
  \<open>SetUpMultipart\<close> returns true and stores as body, for each segment in order, the
  delimiter line, the content disposition, the header lines of the segment's entries in
  ascending order of their field names, an empty line, the data and a line break, and
  then the terminal delimiter line. The same segment list and the same boundary give
  the same bytes, whatever else the two jobs hold.
\<close>

theorem header_entries_sorted_body_deterministic:
  "sorted_wrt (<) (map fst (entries_of (GetHeaderEntries s))) \<and>
   map fst (entries_of m) = sorted_list_of_set (dom (map_find m)) \<and>
   ((k, v) \<in> set (entries_of m) \<longleftrightarrow> map_find m k = Some v) \<and>
   map_find map_empty = Map.empty \<and>
   map_find (map_insert k v m) = (map_find m)(k \<mapsto> v) \<and>
   (ka \<noteq> kb \<longrightarrow>
      entries_of (map_insert ka va (map_insert kb vb m)) =
      entries_of (map_insert kb vb (map_insert ka va m))) \<and>
   (map_find ma = map_find mb \<longrightarrow> entries_of ma = entries_of mb) \<and>
   append_segment boundary post s =
     post @ ''--'' @ boundary @ CRLF @ content_disposition s @ CRLF @
     concat (map (\<lambda>(k, v). k @ '': '' @ v @ CRLF) (entries_of (GetHeaderEntries s))) @
     CRLF @ GetData s @ CRLF \<and>
   (post_data ja = None \<and> names_unique (data_segments ja) {} \<longrightarrow>
      fst (SetUpMultipart ja) \<and>
      mime_boundary (snd (SetUpMultipart ja)) = Some (boundary_generator ja (boundary_calls ja)) \<and>
      post_data (snd (SetUpMultipart ja)) =
        Some (concat (map (\<lambda>s.
                ''--'' @ boundary_generator ja (boundary_calls ja) @ CRLF @
                ''Content-Disposition: form-data; name='' @ DQUOTE @ GetName s @ DQUOTE @
                (if GetFilename s \<noteq> [] then ''; filename='' @ DQUOTE @ GetFilename s @ DQUOTE
                 else []) @ CRLF @
                concat (map (\<lambda>(k, v). k @ '': '' @ v @ CRLF) (entries_of (GetHeaderEntries s))) @
                CRLF @ GetData s @ CRLF) (data_segments ja)) @
              ''--'' @ boundary_generator ja (boundary_calls ja) @ ''--'' @ CRLF)) \<and>
   (data_segments ja = data_segments jb \<and>
    boundary_generator ja (boundary_calls ja) = boundary_generator jb (boundary_calls jb) \<and>
    post_data ja = None \<and> post_data jb = None \<longrightarrow>
      fst (SetUpMultipart ja) = fst (SetUpMultipart jb) \<and>
      mime_boundary (snd (SetUpMultipart ja)) = (if fst (SetUpMultipart ja)
         then Some (boundary_generator ja (boundary_calls ja)) else mime_boundary ja) \<and>
      post_data (snd (SetUpMultipart ja)) = post_data (snd (SetUpMultipart jb)) \<and>
      post_data (snd (SetUpMultipart ja)) = (if fst (SetUpMultipart ja)
         then Some (assemble (boundary_generator ja (boundary_calls ja)) (data_segments ja))
         else None))"
proof -
  have h: "header_line = (\<lambda>(k, v). k @ '': '' @ v @ CRLF)"
    by (rule ext) (simp add: header_line_def split: prod.splits)
  have a: "append_segment boundary post s =
     post @ ''--'' @ boundary @ CRLF @ content_disposition s @ CRLF @
     concat (map (\<lambda>(k, v). k @ '': '' @ v @ CRLF) (entries_of (GetHeaderEntries s))) @
     CRLF @ GetData s @ CRLF"
    unfolding append_segment_part part_def h by simp
  have b: "map_find ma = map_find mb \<longrightarrow> entries_of ma = entries_of mb"
    using map_find_inject by blast
  have c: "fst (SetUpMultipart ja) = fst (SetUpMultipart jb) \<and>
      mime_boundary (snd (SetUpMultipart ja)) = (if fst (SetUpMultipart ja)
         then Some (boundary_generator ja (boundary_calls ja)) else mime_boundary ja) \<and>
      post_data (snd (SetUpMultipart ja)) = post_data (snd (SetUpMultipart jb)) \<and>
      post_data (snd (SetUpMultipart ja)) = (if fst (SetUpMultipart ja)
         then Some (assemble (boundary_generator ja (boundary_calls ja)) (data_segments ja))
         else None)"
    if "data_segments ja = data_segments jb \<and>
    boundary_generator ja (boundary_calls ja) = boundary_generator jb (boundary_calls jb) \<and>
    post_data ja = None \<and> post_data jb = None"
    using that by (simp add: SetUpMultipart_def Let_def)
  have d: "entries_of (map_insert ka va (map_insert kb vb m)) =
      entries_of (map_insert kb vb (map_insert ka va m))" if "ka \<noteq> kb"
  proof -
    have "map_find (map_insert ka va (map_insert kb vb m)) =
          map_find (map_insert kb vb (map_insert ka va m))"
      using that by (simp add: map_find_insert fun_upd_twist)
    then have "map_insert ka va (map_insert kb vb m) = map_insert kb vb (map_insert ka va m)"
      by (rule map_find_inject)
    then show ?thesis by (rule arg_cong)
  qed
  have c': "data_segments ja = data_segments jb \<and>
    boundary_generator ja (boundary_calls ja) = boundary_generator jb (boundary_calls jb) \<and>
    post_data ja = None \<and> post_data jb = None \<longrightarrow>
      fst (SetUpMultipart ja) = fst (SetUpMultipart jb) \<and>
      mime_boundary (snd (SetUpMultipart ja)) = (if fst (SetUpMultipart ja)
         then Some (boundary_generator ja (boundary_calls ja)) else mime_boundary ja) \<and>
      post_data (snd (SetUpMultipart ja)) = post_data (snd (SetUpMultipart jb)) \<and>
      post_data (snd (SetUpMultipart ja)) = (if fst (SetUpMultipart ja)
         then Some (assemble (boundary_generator ja (boundary_calls ja)) (data_segments ja))
         else None)"
    using c by (rule impI)
  have d': "ka \<noteq> kb \<longrightarrow>
      entries_of (map_insert ka va (map_insert kb vb m)) =
      entries_of (map_insert kb vb (map_insert ka va m))"
    using d by (rule impI)
  have e: "post_data ja = None \<and> names_unique (data_segments ja) {} \<longrightarrow>
      fst (SetUpMultipart ja) \<and>
      mime_boundary (snd (SetUpMultipart ja)) = Some (boundary_generator ja (boundary_calls ja)) \<and>
      post_data (snd (SetUpMultipart ja)) =
        Some (concat (map (\<lambda>s.
                ''--'' @ boundary_generator ja (boundary_calls ja) @ CRLF @
                ''Content-Disposition: form-data; name='' @ DQUOTE @ GetName s @ DQUOTE @
                (if GetFilename s \<noteq> [] then ''; filename='' @ DQUOTE @ GetFilename s @ DQUOTE
                 else []) @ CRLF @
                concat (map (\<lambda>(k, v). k @ '': '' @ v @ CRLF) (entries_of (GetHeaderEntries s))) @
                CRLF @ GetData s @ CRLF) (data_segments ja)) @
              ''--'' @ boundary_generator ja (boundary_calls ja) @ ''--'' @ CRLF)"
    using SetUpMultipart_body[of ja] by (intro impI) (elim conjE)
  show ?thesis
    by (rule conjI[OF entries_sorted[of "GetHeaderEntries s"]
          conjI[OF entries_keys[of m] conjI[OF entries_lookup[of k v m]
          conjI[OF map_find_empty conjI[OF map_find_insert[of k v m]
          conjI[OF d' conjI[OF b conjI[OF a conjI[OF e c']]]]]]]]])
qed

theorem header_entries_sorted_body_deterministic_witness:
  "post_data example_two_headers = None \<and> names_unique (data_segments example_two_headers) {} \<and>
   GetHeaderEntries (hd (data_segments example_two_headers)) =
     map_insert ''a'' ''1'' (map_insert ''b'' ''2'' map_empty) \<and>
   ''a'' \<noteq> ''b'' \<and>
   entries_of (map_insert ''a'' ''1'' (map_insert ''b'' ''2'' map_empty)) =
   entries_of (map_insert ''b'' ''2'' (map_insert ''a'' ''1'' map_empty)) \<and>
   entries_of (map_insert ''a'' ''1'' (map_insert ''b'' ''2'' map_empty)) =
     [(''a'', ''1''), (''b'', ''2'')] \<and>
   fst (SetUpMultipart example_two_headers) \<and>
   post_data (snd (SetUpMultipart example_two_headers)) =
     Some (''--B'' @ CRLF @ ''Content-Disposition: form-data; name='' @ DQUOTE @ ''f'' @ DQUOTE @ CRLF @
           ''a: 1'' @ CRLF @ ''b: 2'' @ CRLF @ CRLF @ ''x'' @ CRLF @ ''--B--'' @ CRLF) \<and>
   map_find (map_insert ''b'' ''2'' (map_insert ''a'' ''1'' map_empty)) =
   map_find (map_insert ''a'' ''1'' (map_insert ''b'' ''2'' map_empty)) \<and>
   data_segments example_two_headers =
     data_segments (example_two_headers\<lparr>access_token := ''T''\<rparr>) \<and>
   boundary_generator example_two_headers (boundary_calls example_two_headers) =
   boundary_generator (example_two_headers\<lparr>access_token := ''T''\<rparr>)
     (boundary_calls (example_two_headers\<lparr>access_token := ''T''\<rparr>)) \<and>
   post_data (example_two_headers\<lparr>access_token := ''T''\<rparr>) = None \<and>
   post_data (snd (SetUpMultipart example_two_headers)) =
   post_data (snd (SetUpMultipart (example_two_headers\<lparr>access_token := ''T''\<rparr>)))"
proof -
  have ne: "''a'' \<noteq> ''b''" by simp
  have segs: "data_segments example_two_headers =
      [\<lparr>GetName = ''f'', GetFilename = [], GetData = ''x'',
        GetHeaderEntries = map_insert ''a'' ''1'' (map_insert ''b'' ''2'' map_empty)\<rparr>]"
    and p: "post_data example_two_headers = None"
    and g: "boundary_generator example_two_headers (boundary_calls example_two_headers) = ''B''"
    by (simp_all add: example_two_headers_def example_url_def UploadJobImpl_def AddDataSegment_def)
  have u: "names_unique (data_segments example_two_headers) {}"
    by (simp add: segs)
  have hd: "GetHeaderEntries (hd (data_segments example_two_headers)) =
     map_insert ''a'' ''1'' (map_insert ''b'' ''2'' map_empty)"
    by (simp add: segs)
  have en: "entries_of (map_insert ''a'' ''1'' (map_insert ''b'' ''2'' map_empty)) =
     [(''a'', ''1''), (''b'', ''2'')]"
    by (simp add: map_insert.rep_eq map_empty.rep_eq)
  note t = header_entries_sorted_body_deterministic[where ja = example_two_headers
      and jb = "example_two_headers\<lparr>access_token := ''T''\<rparr>"
      and ka = "''a''" and kb = "''b''" and va = "''1''" and vb = "''2''" and m = map_empty
      and ma = "map_insert ''b'' ''2'' (map_insert ''a'' ''1'' map_empty)"
      and mb = "map_insert ''a'' ''1'' (map_insert ''b'' ''2'' map_empty)"]
  from t ne have sw: "entries_of (map_insert ''a'' ''1'' (map_insert ''b'' ''2'' map_empty)) =
   entries_of (map_insert ''b'' ''2'' (map_insert ''a'' ''1'' map_empty))"
    by blast
  from t p u have ok: "fst (SetUpMultipart example_two_headers)"
    and body: "post_data (snd (SetUpMultipart example_two_headers)) =
        Some (concat (map (\<lambda>s.
                ''--'' @ boundary_generator example_two_headers (boundary_calls example_two_headers) @ CRLF @
                ''Content-Disposition: form-data; name='' @ DQUOTE @ GetName s @ DQUOTE @
                (if GetFilename s \<noteq> [] then ''; filename='' @ DQUOTE @ GetFilename s @ DQUOTE
                 else []) @ CRLF @
                concat (map (\<lambda>(k, v). k @ '': '' @ v @ CRLF) (entries_of (GetHeaderEntries s))) @
                CRLF @ GetData s @ CRLF) (data_segments example_two_headers)) @
              ''--'' @ boundary_generator example_two_headers (boundary_calls example_two_headers) @
              ''--'' @ CRLF)"
    by blast+
  have body': "post_data (snd (SetUpMultipart example_two_headers)) =
     Some (''--B'' @ CRLF @ ''Content-Disposition: form-data; name='' @ DQUOTE @ ''f'' @ DQUOTE @ CRLF @
           ''a: 1'' @ CRLF @ ''b: 2'' @ CRLF @ CRLF @ ''x'' @ CRLF @ ''--B--'' @ CRLF)"
    unfolding body g segs by (simp add: en)
  have f: "map_find (map_insert ''b'' ''2'' (map_insert ''a'' ''1'' map_empty)) =
   map_find (map_insert ''a'' ''1'' (map_insert ''b'' ''2'' map_empty))"
    using sw en by (simp add: map_find.rep_eq)
  from t f have "entries_of (map_insert ''b'' ''2'' (map_insert ''a'' ''1'' map_empty)) =
    entries_of (map_insert ''a'' ''1'' (map_insert ''b'' ''2'' map_empty))"
    by blast
  have hyp: "data_segments example_two_headers =
     data_segments (example_two_headers\<lparr>access_token := ''T''\<rparr>) \<and>
   boundary_generator example_two_headers (boundary_calls example_two_headers) =
   boundary_generator (example_two_headers\<lparr>access_token := ''T''\<rparr>)
     (boundary_calls (example_two_headers\<lparr>access_token := ''T''\<rparr>)) \<and>
   post_data example_two_headers = None \<and>
   post_data (example_two_headers\<lparr>access_token := ''T''\<rparr>) = None"
    using p by simp
  from t hyp have same: "post_data (snd (SetUpMultipart example_two_headers)) =
   post_data (snd (SetUpMultipart (example_two_headers\<lparr>access_token := ''T''\<rparr>)))"
    by blast
  show ?thesis using p u hd ne sw en ok body' f hyp same by blast
qed

end
